theory Spec2Isabelle
  imports Complex_Main "HOL-Library.Word" "HOL-Library.Log_Nat"
begin

section \<open>JavaScript numbers\<close>

text \<open>
  \<open>accountAgeThreshold\<close> is \<open>Number(process.env.ACCOUNT_AGE_THRESHOLD || "7")\<close>, taken
  as it comes: any double, NaN included. A finite double is modelled by its exact value.
  \<open>js_less\<close> is the operator \<open><\<close> on numbers: false whenever an operand is NaN.
\<close>

datatype number = NaN | Finite rat | PosInfinity | NegInfinity

fun js_less :: "number \<Rightarrow> number \<Rightarrow> bool" where
  "js_less (Finite a) (Finite b) = (a < b)"
| "js_less (Finite a) PosInfinity = True"
| "js_less NegInfinity (Finite b) = True"
| "js_less NegInfinity PosInfinity = True"
| "js_less x y = False"

text \<open>
  \<open>fl64 q\<close> is the double an arithmetic operation returns when its exact result is
  \<open>q\<close>: \<open>q\<close> rounded to 53 significant bits, ties to even, with the subnormal grid
  below \<open>2 ^ - 1022\<close> and overflow to infinity. \<open>exponent q\<close> is the integer \<open>e\<close>
  with \<open>2 ^ e \<le> \<bar>q\<bar> < 2 ^ (e + 1)\<close>.
\<close>

definition roundTiesToEven :: "rat \<Rightarrow> int" where
  "roundTiesToEven y =
     (let f = \<lfloor>y\<rfloor>; r = y - of_int f
      in if r < 1 / 2 then f else if 1 / 2 < r then f + 1 else if even f then f else f + 1)"

definition exponent :: "rat \<Rightarrow> int" where
  "exponent q =
     (case quotient_of \<bar>q\<bar> of
        (a, b) \<Rightarrow>
          (let k = bitlen a - bitlen b
           in if 2 powi k \<le> \<bar>q\<bar> then k else k - 1))"

definition fl64 :: "rat \<Rightarrow> number" where
  "fl64 q =
     (if q = 0 then Finite 0
      else
        (let e = max (exponent q) (- 1022);
             u = 2 powi (e - 52);
             r = of_int (roundTiesToEven (q / u)) * u
         in if 2 ^ 1024 \<le> \<bar>r\<bar> then (if 0 < r then PosInfinity else NegInfinity)
            else Finite r))"

section \<open>Data model (types.ts and the parts of web3.js the core reads)\<close>

text \<open>
  JavaScript numbers that hold lamports and millisecond or second timestamps are
  integers in every value the ledger produces; they are modelled as \<open>int\<close>, and sums,
  differences and products of such integers are exact below \<open>2 ^ 53\<close>. The one place
  where the source divides (the elapsed days of \<open>hasRecentActivity\<close>) and the inactivity
  threshold it compares with are doubles: see the section on JavaScript numbers.
  A thrown value is modelled by its message, a \<open>string\<close>: a call that may throw
  returns \<open>string + 'a\<close> with \<open>Inl\<close> the throw.
\<close>

datatype PublicKey = PublicKey (toBase58: string)

record Keypair =
  publicKey :: PublicKey

record AccountInfo =
  lamports :: int
  owner :: PublicKey
  executable :: bool
  data :: "8 word list"

record ConfirmedSignatureInfo =
  signature :: string
  blockTime :: "int option"

record ParsedMessageAccount =
  pubkey :: PublicKey

record Transfer =
  fromPubkey :: PublicKey
  toPubkey :: PublicKey
  lamports :: int

record Config =
  minRentThreshold :: int
  accountAgeThreshold :: number

record SponsoredAccount =
  address :: string
  lamports :: int
  owner :: string
  executable :: bool
  dataLength :: nat
  lastActivity :: "int option"

datatype ReclaimReason = ACCOUNT_CLOSED | ACCOUNT_EMPTY | ACCOUNT_INACTIVE

record ReclaimableAccount = SponsoredAccount +
  reason :: ReclaimReason
  estimatedRent :: int

record CloseResult =
  success :: bool
  signature :: "string option"
  error :: "string option"

record ReclaimResult =
  success :: bool
  accountAddress :: string
  reclaimedAmount :: int
  signature :: "string option"
  error :: "string option"
  timestamp :: int

record RentStats =
  totalAccountsMonitored :: nat
  totalRentLocked :: int
  totalRentReclaimed :: int
  reclaimableAccounts :: nat
  estimatedReclaimable :: int
  lastScanTime :: int

section \<open>The environment: ledger gateway, runtime, log sink\<close>

text \<open>
  The RPC connection is an external collaborator: each of its calls is a response
  function. \<open>getParsedTransaction\<close> answers \<open>None\<close> when the transaction, or any
  link of \<open>tx?.transaction?.message?.accountKeys\<close>, is null or undefined.
  \<open>sendAndConfirmTransaction\<close> answers the signature, or throws.
\<close>

record Connection =
  getSignaturesForAddress :: "PublicKey \<Rightarrow> int \<Rightarrow> string + ConfirmedSignatureInfo list"
  getParsedTransaction :: "string \<Rightarrow> string + ParsedMessageAccount list option"
  getAccountInfo :: "PublicKey \<Rightarrow> string + AccountInfo option"
  sendAndConfirmTransaction :: "Transfer \<Rightarrow> Keypair list \<Rightarrow> string + string"

text \<open>
  The runtime holds the constructor \<open>new PublicKey(address)\<close>, which throws on a
  malformed address, and the wall clock: \<open>now n\<close> is what the \<open>n\<close>-th reading of
  the clock (\<open>Date.now()\<close>, \<open>new Date()\<close>) returns, in milliseconds.
\<close>

record runtime =
  newPublicKey :: "string \<Rightarrow> string + PublicKey"
  now :: "nat \<Rightarrow> int"

text \<open>The read-only fields of the class \<open>RentReclaimer\<close>.\<close>

record RentReclaimer =
  connection :: Connection
  feePayer :: Keypair
  treasury :: PublicKey
  config :: Config

datatype level = INFO | WARN | ERROR

text \<open>
  One constructor for each logger call of the source, carrying the values the call
  interpolates into its message or passes as metadata.
\<close>

datatype message =
    Fetching_sponsored_accounts
  | Found_sponsored_accounts nat
  | getSponsoredAccounts_failed string
  | fetchAccountInfo_failed string string
  | Identifying_reclaimable_accounts
  | Identified_reclaimable_accounts nat rat
  | Skipping_evaluation_error string string
  | hasRecentActivity_check_failed string string
  | Reclaiming string ReclaimReason
  | Rent_reclaimed string string int
  | closeAccountAndReclaimRent_failed string string
  | Rent_reclaimed_successfully string int bool "string option" "string option" int
  | Rent_reclaim_failed string int bool "string option" "string option" int

text \<open>
  Everything that changes while the core runs: the two counters of the instance,
  how many times the clock has been read, the log, and the transfers the ledger has
  confirmed (each with its signature).
\<close>

record world =
  lifetimeReclaimed :: int
  lastScanTime :: int
  ticks :: nat
  logs :: "(level \<times> message) list"
  confirmed :: "(string \<times> Transfer) list"

definition logger_info :: "message \<Rightarrow> world \<Rightarrow> world" where
  "logger_info m w = w\<lparr>logs := logs w @ [(INFO, m)]\<rparr>"

definition logger_warn :: "message \<Rightarrow> world \<Rightarrow> world" where
  "logger_warn m w = w\<lparr>logs := logs w @ [(WARN, m)]\<rparr>"

definition logger_error :: "message \<Rightarrow> world \<Rightarrow> world" where
  "logger_error m w = w\<lparr>logs := logs w @ [(ERROR, m)]\<rparr>"

definition Date_now :: "runtime \<Rightarrow> world \<Rightarrow> int \<times> world" where
  "Date_now rt w = (now rt (ticks w), w\<lparr>ticks := Suc (ticks w)\<rparr>)"

definition logReclaimOperation ::
  "runtime \<Rightarrow> string \<Rightarrow> int \<Rightarrow> bool \<Rightarrow> string option \<Rightarrow> string option \<Rightarrow> world \<Rightarrow> world" where
  "logReclaimOperation rt addr amountLamports ok sig err w =
     (let (t, w1) = Date_now rt w
      in if ok
         then logger_info (Rent_reclaimed_successfully addr amountLamports ok sig err t) w1
         else logger_error (Rent_reclaim_failed addr amountLamports ok sig err t) w1)"

section \<open>utils/solana.ts\<close>

definition LAMPORTS_PER_SOL :: rat where
  "LAMPORTS_PER_SOL = 1000000000"

definition lamportsToSol :: "int \<Rightarrow> rat" where
  "lamportsToSol n = of_int n / LAMPORTS_PER_SOL"

definition SystemProgram_programId :: PublicKey where
  "SystemProgram_programId = PublicKey ''11111111111111111111111111111111''"

definition fetchAccountInfo ::
  "runtime \<Rightarrow> Connection \<Rightarrow> string \<Rightarrow> world \<Rightarrow> AccountInfo option \<times> world" where
  "fetchAccountInfo rt conn addr w =
     (case newPublicKey rt addr of
        Inl err \<Rightarrow> (None, logger_error (fetchAccountInfo_failed addr err) w)
      | Inr pk \<Rightarrow>
          (case getAccountInfo conn pk of
             Inl err \<Rightarrow> (None, logger_error (fetchAccountInfo_failed addr err) w)
           | Inr info \<Rightarrow> (info, w)))"

definition isAccountClosed :: "AccountInfo option \<Rightarrow> bool" where
  "isAccountClosed info =
     (case info of None \<Rightarrow> True | Some i \<Rightarrow> AccountInfo.lamports i = 0)"

definition hasEmptyData :: "AccountInfo option \<Rightarrow> bool" where
  "hasEmptyData info =
     (case info of None \<Rightarrow> False | Some i \<Rightarrow> length (data i) = 0)"

text \<open>
  \<open>!blockTime\<close> holds for null, for undefined and for the number 0: the last is the
  case \<open>Some 0\<close>. \<open>daysSince t bt\<close> is the expression
  \<open>(Date.now() - blockTime * 1000) / (1000 * 60 * 60 * 24)\<close> at the clock reading \<open>t\<close>.
\<close>

definition daysSince :: "int \<Rightarrow> int \<Rightarrow> number" where
  "daysSince t bt = fl64 (of_int (t - bt * 1000) / (1000 * 60 * 60 * 24))"

definition hasRecentActivity ::
  "runtime \<Rightarrow> Connection \<Rightarrow> string \<Rightarrow> number \<Rightarrow> world \<Rightarrow> bool \<times> world" where
  "hasRecentActivity rt conn addr daysThreshold w =
     (case newPublicKey rt addr of
        Inl err \<Rightarrow> (True, logger_error (hasRecentActivity_check_failed addr err) w)
      | Inr pk \<Rightarrow>
          (case getSignaturesForAddress conn pk 1 of
             Inl err \<Rightarrow> (True, logger_error (hasRecentActivity_check_failed addr err) w)
           | Inr sigs \<Rightarrow>
               (case sigs of
                  [] \<Rightarrow> (False, w)
                | s # _ \<Rightarrow>
                    (case blockTime s of
                       None \<Rightarrow> (True, w)
                     | Some bt \<Rightarrow>
                         if bt = 0 then (True, w)
                         else
                           (let (t, w1) = Date_now rt w
                            in (js_less (daysSince t bt) daysThreshold, w1))))))"

definition emDash :: string where
  "emDash = [CHR 0xE2, CHR 0x80, CHR 0x94]"

definition closeAccountAndReclaimRent ::
  "Connection \<Rightarrow> Keypair \<Rightarrow> PublicKey \<Rightarrow> PublicKey \<Rightarrow> world \<Rightarrow> CloseResult \<times> world" where
  "closeAccountAndReclaimRent conn payer accountToClose treas w =
     (case getAccountInfo conn accountToClose of
        Inl msg \<Rightarrow>
          (\<lparr>CloseResult.success = False, CloseResult.signature = None, CloseResult.error = Some msg\<rparr>,
           logger_error (closeAccountAndReclaimRent_failed (toBase58 accountToClose) msg) w)
      | Inr None \<Rightarrow>
          (\<lparr>CloseResult.success = False, CloseResult.signature = None,
            CloseResult.error = Some ''Account does not exist or is already closed.''\<rparr>, w)
      | Inr (Some info) \<Rightarrow>
          if AccountInfo.lamports info = 0
          then (\<lparr>CloseResult.success = False, CloseResult.signature = None,
                 CloseResult.error = Some ''Account already has zero balance.''\<rparr>, w)
          else if AccountInfo.owner info \<noteq> SystemProgram_programId
          then (\<lparr>CloseResult.success = False, CloseResult.signature = None,
                 CloseResult.error = Some (''Account is owned by '' @ toBase58 (AccountInfo.owner info) @ '' ''
                   @ emDash @ '' needs a program-specific close instruction.'')\<rparr>, w)
          else
            (let tx = \<lparr>fromPubkey = accountToClose, toPubkey = treas,
                       Transfer.lamports = AccountInfo.lamports info\<rparr>
             in case sendAndConfirmTransaction conn tx [payer] of
                  Inl msg \<Rightarrow>
                    (\<lparr>CloseResult.success = False, CloseResult.signature = None, CloseResult.error = Some msg\<rparr>,
                     logger_error
                       (closeAccountAndReclaimRent_failed (toBase58 accountToClose) msg) w)
                | Inr sig \<Rightarrow>
                    (\<lparr>CloseResult.success = True, CloseResult.signature = Some sig, CloseResult.error = None\<rparr>,
                     logger_info
                       (Rent_reclaimed (toBase58 accountToClose) sig (AccountInfo.lamports info))
                       (w\<lparr>confirmed := confirmed w @ [(sig, tx)]\<rparr>))))"

section \<open>core/RentReclaimer.ts\<close>

subsection \<open>Discover\<close>

text \<open>
  The inner loop of \<open>getSponsoredAccounts\<close>, over the account keys of one parsed
  transaction, and the outer loop over the signatures. \<open>seen\<close> and \<open>result\<close> are
  the two locals the loops update.
\<close>

fun collectAccountKeys ::
  "runtime \<Rightarrow> Connection \<Rightarrow> ConfirmedSignatureInfo \<Rightarrow> ParsedMessageAccount list \<Rightarrow>
   string set \<Rightarrow> SponsoredAccount list \<Rightarrow> world \<Rightarrow> string set \<times> SponsoredAccount list \<times> world" where
  "collectAccountKeys rt conn sigInfo [] seen result w = (seen, result, w)"
| "collectAccountKeys rt conn sigInfo (key # keys) seen result w =
     (let addr = toBase58 (pubkey key)
      in if addr \<in> seen then collectAccountKeys rt conn sigInfo keys seen result w
         else
           (case fetchAccountInfo rt conn addr w of
              (None, w1) \<Rightarrow>
                collectAccountKeys rt conn sigInfo keys (insert addr seen)
                  (result @ [\<lparr>address = addr, lamports = 0, owner = '''', executable = False,
                              dataLength = 0, lastActivity = blockTime sigInfo\<rparr>]) w1
            | (Some info, w1) \<Rightarrow>
                collectAccountKeys rt conn sigInfo keys (insert addr seen)
                  (result @ [\<lparr>address = addr, lamports = AccountInfo.lamports info,
                              owner = toBase58 (AccountInfo.owner info),
                              executable = AccountInfo.executable info,
                              dataLength = length (data info),
                              lastActivity = blockTime sigInfo\<rparr>]) w1))"

fun scanSignatures ::
  "runtime \<Rightarrow> Connection \<Rightarrow> ConfirmedSignatureInfo list \<Rightarrow>
   string set \<Rightarrow> SponsoredAccount list \<Rightarrow> world \<Rightarrow> SponsoredAccount list \<times> world" where
  "scanSignatures rt conn [] seen result w = (result, w)"
| "scanSignatures rt conn (sigInfo # rest) seen result w =
     (case getParsedTransaction conn (ConfirmedSignatureInfo.signature sigInfo) of
        Inl err \<Rightarrow> scanSignatures rt conn rest seen result w
      | Inr None \<Rightarrow> scanSignatures rt conn rest seen result w
      | Inr (Some accountKeys) \<Rightarrow>
          (case collectAccountKeys rt conn sigInfo accountKeys seen result w of
             (seen1, result1, w1) \<Rightarrow> scanSignatures rt conn rest seen1 result1 w1))"

definition getSponsoredAccounts ::
  "runtime \<Rightarrow> RentReclaimer \<Rightarrow> world \<Rightarrow> SponsoredAccount list \<times> world" where
  "getSponsoredAccounts rt this w =
     (let w0 = logger_info Fetching_sponsored_accounts w
      in case getSignaturesForAddress (connection this) (publicKey (feePayer this)) 100 of
           Inl err \<Rightarrow> ([], logger_error (getSponsoredAccounts_failed err) w0)
         | Inr signatures \<Rightarrow>
             (case scanSignatures rt (connection this) signatures {} [] w0 of
                (result, w1) \<Rightarrow>
                  (result, logger_info (Found_sponsored_accounts (length result)) w1)))"

subsection \<open>Evaluate\<close>

text \<open>
  The body of the loop of \<open>identifyReclaimableAccounts\<close> for one account: what it
  pushes on \<open>reclaimable\<close>, if anything. Past rule A the source reads \<open>info!\<close>; on
  a null \<open>info\<close> that read would throw into the \<open>catch\<close> of the body, which logs
  and skips the account.
\<close>

definition evaluateAccount ::
  "runtime \<Rightarrow> RentReclaimer \<Rightarrow> SponsoredAccount \<Rightarrow> world \<Rightarrow> ReclaimableAccount option \<times> world" where
  "evaluateAccount rt this acct w =
     (let minRent = minRentThreshold (config this);
          ageDays = accountAgeThreshold (config this)
      in case fetchAccountInfo rt (connection this) (address acct) w of
           (info, w1) \<Rightarrow>
             if isAccountClosed info
             then (if minRent \<le> SponsoredAccount.lamports acct
                   then (Some (SponsoredAccount.extend acct
                           \<lparr>reason = ACCOUNT_CLOSED,
                            estimatedRent = SponsoredAccount.lamports acct\<rparr>), w1)
                   else (None, w1))
             else
               (case info of
                  None \<Rightarrow>
                    (None, logger_warn (Skipping_evaluation_error (address acct)
                             ''Cannot read properties of null'') w1)
                | Some live \<Rightarrow>
                    if hasEmptyData (Some live) \<and> minRent \<le> AccountInfo.lamports live
                    then (Some ((SponsoredAccount.extend acct
                            \<lparr>reason = ACCOUNT_EMPTY,
                             estimatedRent = AccountInfo.lamports live\<rparr>)
                            \<lparr>SponsoredAccount.lamports := AccountInfo.lamports live\<rparr>), w1)
                    else if minRent \<le> AccountInfo.lamports live
                    then
                      (case hasRecentActivity rt (connection this) (address acct) ageDays w1 of
                         (active, w2) \<Rightarrow>
                           if \<not> active
                           then (Some ((SponsoredAccount.extend acct
                                   \<lparr>reason = ACCOUNT_INACTIVE,
                                    estimatedRent = AccountInfo.lamports live\<rparr>)
                                   \<lparr>SponsoredAccount.lamports := AccountInfo.lamports live\<rparr>),
                                 w2)
                           else (None, w2))
                    else (None, w1)))"

fun evaluateAccounts ::
  "runtime \<Rightarrow> RentReclaimer \<Rightarrow> SponsoredAccount list \<Rightarrow> ReclaimableAccount list \<Rightarrow> world \<Rightarrow>
   ReclaimableAccount list \<times> world" where
  "evaluateAccounts rt this [] reclaimable w = (reclaimable, w)"
| "evaluateAccounts rt this (acct # rest) reclaimable w =
     (case evaluateAccount rt this acct w of
        (None, w1) \<Rightarrow> evaluateAccounts rt this rest reclaimable w1
      | (Some r, w1) \<Rightarrow> evaluateAccounts rt this rest (reclaimable @ [r]) w1)"

definition identifyReclaimableAccounts ::
  "runtime \<Rightarrow> RentReclaimer \<Rightarrow> SponsoredAccount list \<Rightarrow> world \<Rightarrow> ReclaimableAccount list \<times> world" where
  "identifyReclaimableAccounts rt this accounts w =
     (case evaluateAccounts rt this accounts []
             (logger_info Identifying_reclaimable_accounts w) of
        (reclaimable, w1) \<Rightarrow>
          (let total = foldl (\<lambda>s a. s + estimatedRent a) 0 reclaimable
           in (reclaimable,
               logger_info (Identified_reclaimable_accounts (length reclaimable)
                 (lamportsToSol total)) w1)))"

subsection \<open>Reclaim\<close>

text \<open>
  Inside the \<open>try\<close> of \<open>reclaimRent\<close> only \<open>new PublicKey(account.address)\<close> can
  throw, since \<open>closeAccountAndReclaimRent\<close> catches everything itself.
\<close>

definition reclaimRent ::
  "runtime \<Rightarrow> RentReclaimer \<Rightarrow> ReclaimableAccount \<Rightarrow> world \<Rightarrow> ReclaimResult \<times> world" where
  "reclaimRent rt this account w =
     (let w0 = logger_info (Reclaiming (address account) (reason account)) w
      in case newPublicKey rt (address account) of
           Inl msg \<Rightarrow>
             (let w1 = logReclaimOperation rt (address account) (estimatedRent account)
                         False None (Some msg) w0;
                  (t, w2) = Date_now rt w1
              in (\<lparr>ReclaimResult.success = False, accountAddress = address account,
                   reclaimedAmount = 0, ReclaimResult.signature = None,
                   ReclaimResult.error = Some msg, timestamp = t\<rparr>, w2))
         | Inr pk \<Rightarrow>
             (case closeAccountAndReclaimRent (connection this) (feePayer this) pk
                     (treasury this) w0 of
                (res, w1) \<Rightarrow>
                  (let (t, w2) = Date_now rt w1;
                       result = \<lparr>ReclaimResult.success = CloseResult.success res,
                                 accountAddress = address account,
                                 reclaimedAmount =
                                   (if CloseResult.success res then estimatedRent account else 0),
                                 ReclaimResult.signature = CloseResult.signature res,
                                 ReclaimResult.error = CloseResult.error res,
                                 timestamp = t\<rparr>;
                       w3 = logReclaimOperation rt (address account) (estimatedRent account)
                              (CloseResult.success res) (CloseResult.signature res)
                              (CloseResult.error res) w2;
                       w4 = (if CloseResult.success res
                             then w3\<lparr>lifetimeReclaimed :=
                                        lifetimeReclaimed w3 + estimatedRent account\<rparr>
                             else w3)
                   in (result, w4))))"

subsection \<open>Reporting\<close>

definition getStats ::
  "SponsoredAccount list \<Rightarrow> ReclaimableAccount list \<Rightarrow> world \<Rightarrow> RentStats" where
  "getStats scanned reclaimable w =
     \<lparr>totalAccountsMonitored = length scanned,
      totalRentLocked = foldl (\<lambda>s a. s + SponsoredAccount.lamports a) 0 scanned,
      totalRentReclaimed = lifetimeReclaimed w,
      reclaimableAccounts = length reclaimable,
      estimatedReclaimable = foldl (\<lambda>s a. s + estimatedRent a) 0 reclaimable,
      RentStats.lastScanTime = world.lastScanTime w\<rparr>"

section \<open>The recent-activity rule as the specification words it\<close>

text \<open>
  Verbatim from the specification: no signatures ever is inactive; a timestamp present
  is inactive when the elapsed days since that timestamp reach the threshold; a
  timestamp that cannot be determined, or a lookup that fails, is active. \<open>t\<close> is
  the clock reading in milliseconds, the block time is in seconds; the elapsed days are
  the exact quotient. \<open>at_least x n\<close>: the quantity \<open>x\<close> is at least the number
  \<open>n\<close>; nothing is at least NaN.
\<close>

definition at_least :: "rat \<Rightarrow> number \<Rightarrow> bool" where
  "at_least x n =
     (case n of NaN \<Rightarrow> False | Finite b \<Rightarrow> b \<le> x | PosInfinity \<Rightarrow> False
      | NegInfinity \<Rightarrow> True)"

definition spec_inactive :: "string + ConfirmedSignatureInfo list \<Rightarrow> int \<Rightarrow> number \<Rightarrow> bool" where
  "spec_inactive lookup t threshold =
     (case lookup of
        Inl err \<Rightarrow> False
      | Inr [] \<Rightarrow> True
      | Inr (s # rest) \<Rightarrow>
          (case blockTime s of
             None \<Rightarrow> False
           | Some bt \<Rightarrow>
               at_least (of_int (t - bt * 1000) / (1000 * 60 * 60 * 24)) threshold))"

text \<open>
  The guards of the loop body in front of the recent-activity check: the snapshot is
  not closed, rule B does not apply, and the balance meets the threshold.
\<close>

definition reachesActivityCheck :: "RentReclaimer \<Rightarrow> AccountInfo option \<Rightarrow> bool" where
  "reachesActivityCheck this info =
     (case info of
        None \<Rightarrow> False
      | Some live \<Rightarrow>
          \<not> isAccountClosed info \<and>
          \<not> (hasEmptyData info \<and> minRentThreshold (config this) \<le> AccountInfo.lamports live) \<and>
          minRentThreshold (config this) \<le> AccountInfo.lamports live)"

section \<open>Invariant of the discovery loops\<close>

text \<open>
  \<open>fetchFails rt conn addr err\<close>: the expression
  \<open>connection.getAccountInfo(new PublicKey(address))\<close> throws \<open>err\<close>.
\<close>

definition fetchFails :: "runtime \<Rightarrow> Connection \<Rightarrow> string \<Rightarrow> string \<Rightarrow> bool" where
  "fetchFails rt conn addr err =
     (case newPublicKey rt addr of
        Inl e \<Rightarrow> e = err
      | Inr pk \<Rightarrow> getAccountInfo conn pk = Inl err)"

definition recordedAbsent :: "runtime \<Rightarrow> Connection \<Rightarrow> world \<Rightarrow> SponsoredAccount \<Rightarrow> bool" where
  "recordedAbsent rt conn w r =
     (\<forall>err. fetchFails rt conn (address r) err \<longrightarrow>
        SponsoredAccount.lamports r = 0 \<and> SponsoredAccount.owner r = '''' \<and>
        \<not> SponsoredAccount.executable r \<and> dataLength r = 0 \<and>
        (ERROR, fetchAccountInfo_failed (address r) err) \<in> set (logs w))"

definition discoveryInv ::
  "runtime \<Rightarrow> Connection \<Rightarrow> string set \<Rightarrow> SponsoredAccount list \<Rightarrow> world \<Rightarrow> bool" where
  "discoveryInv rt conn seen result w =
     (address ` set result = seen \<and> (\<forall>r \<in> set result. recordedAbsent rt conn w r))"

section \<open>Concrete ledgers and accounts\<close>

definition world0 :: world where
  "world0 = \<lparr>lifetimeReclaimed = 0, world.lastScanTime = 0, ticks = 0, logs = [],
              confirmed = []\<rparr>"

text \<open>A clock that starts at 2023-11-14T22:13:20Z and advances 1 ms at each reading.\<close>

definition runtime0 :: runtime where
  "runtime0 = \<lparr>newPublicKey = (\<lambda>a. Inr (PublicKey a)), now = (\<lambda>n. 1700000000000 + int n)\<rparr>"

text \<open>
  A clock whose first reading is 1 ms short of seven days after block time 1699136000.
\<close>

definition runtime7 :: runtime where
  "runtime7 = \<lparr>newPublicKey = (\<lambda>a. Inr (PublicKey a)), now = (\<lambda>n. 1699740799999 + int n)\<rparr>"

definition wallet :: Keypair where
  "wallet = \<lparr>publicKey = PublicKey ''FeePayer''\<rparr>"

definition tokenProgram :: PublicKey where
  "tokenProgram = PublicKey ''TokenkegQfeZyiNwAJbNbGKPFXCWuBvf9Ss623VQ5DA''"

text \<open>
  \<open>ledger1\<close>: the fee payer's own account and the account \<open>A\<close> are
  system-owned and hold 3000000 lamports each. A transfer is signed before it is
  sent: when the debited account is not among the signers the call throws, otherwise
  the transfer is confirmed.
\<close>

definition ledger1 :: Connection where
  "ledger1 =
     \<lparr>getSignaturesForAddress = (\<lambda>pk limit. Inr []),
      getParsedTransaction = (\<lambda>s. Inr None),
      getAccountInfo = (\<lambda>pk.
        if pk = PublicKey ''FeePayer'' \<or> pk = PublicKey ''A''
        then Inr (Some \<lparr>AccountInfo.lamports = 3000000, owner = SystemProgram_programId,
                         executable = False, data = []\<rparr>)
        else Inr None),
      sendAndConfirmTransaction = (\<lambda>tx signers.
        if fromPubkey tx \<in> publicKey ` set signers then Inr ''sig1''
        else Inl ''Signature verification failed. Missing signature'')\<rparr>"

definition reclaimer1 :: RentReclaimer where
  "reclaimer1 = \<lparr>connection = ledger1, feePayer = wallet, treasury = PublicKey ''Treasury'',
     config = \<lparr>minRentThreshold = 1000000, accountAgeThreshold = Finite 7\<rparr>\<rparr>"

text \<open>
  The fee payer's account as an evaluation saw it when it held 2000000 lamports; it
  has received 1000000 more since.
\<close>

definition stale1 :: ReclaimableAccount where
  "stale1 = \<lparr>address = ''FeePayer'', lamports = 2000000, owner = ''11111111111111111111111111111111'',
     executable = False, dataLength = 0, lastActivity = None,
     reason = ACCOUNT_EMPTY, estimatedRent = 2000000\<rparr>"

text \<open>
  \<open>ledger2\<close>: \<open>C\<close>, \<open>D\<close>, \<open>F\<close> and \<open>T\<close> hold 3000000 lamports and 32
  bytes. Before the first reading of \<open>runtime0\<close>, the last transaction of \<open>C\<close> is
  ten days old (block time 1699136000), the one of \<open>D\<close> one day old (1699913600), the
  one of \<open>F\<close> a tenth of a day old (1699991360); the last one of \<open>T\<close> has block
  time 0. \<open>Z\<close> exists with balance 0 and one byte. Every other address is absent and
  has no history.
\<close>

definition ledger2 :: Connection where
  "ledger2 =
     \<lparr>getSignaturesForAddress = (\<lambda>pk limit.
        if pk = PublicKey ''C''
        then Inr [\<lparr>ConfirmedSignatureInfo.signature = ''s7'', blockTime = Some 1699136000\<rparr>]
        else if pk = PublicKey ''D''
        then Inr [\<lparr>ConfirmedSignatureInfo.signature = ''s8'', blockTime = Some 1699913600\<rparr>]
        else if pk = PublicKey ''F''
        then Inr [\<lparr>ConfirmedSignatureInfo.signature = ''s9'', blockTime = Some 1699991360\<rparr>]
        else if pk = PublicKey ''T''
        then Inr [\<lparr>ConfirmedSignatureInfo.signature = ''s0'', blockTime = Some 0\<rparr>]
        else Inr []),
      getParsedTransaction = (\<lambda>s. Inr None),
      getAccountInfo = (\<lambda>pk.
        if pk = PublicKey ''C'' \<or> pk = PublicKey ''D'' \<or> pk = PublicKey ''F''
           \<or> pk = PublicKey ''T''
        then Inr (Some \<lparr>AccountInfo.lamports = 3000000, owner = tokenProgram,
                         executable = False, data = replicate 32 0\<rparr>)
        else if pk = PublicKey ''Z''
        then Inr (Some \<lparr>AccountInfo.lamports = 0, owner = tokenProgram,
                         executable = False, data = [1]\<rparr>)
        else Inr None),
      sendAndConfirmTransaction = (\<lambda>tx signers. Inl ''Signature verification failed'')\<rparr>"

definition reclaimer2 :: RentReclaimer where
  "reclaimer2 = \<lparr>connection = ledger2, feePayer = wallet, treasury = PublicKey ''Treasury'',
     config = \<lparr>minRentThreshold = 1000000, accountAgeThreshold = Finite 7\<rparr>\<rparr>"

text \<open>The same ledger under \<open>MIN_RENT_THRESHOLD=0\<close>.\<close>

definition reclaimer3 :: RentReclaimer where
  "reclaimer3 = \<lparr>connection = ledger2, feePayer = wallet, treasury = PublicKey ''Treasury'',
     config = \<lparr>minRentThreshold = 0, accountAgeThreshold = Finite 7\<rparr>\<rparr>"

text \<open>
  The same ledger under \<open>ACCOUNT_AGE_THRESHOLD=seven\<close>, which \<open>Number\<close> reads as
  NaN, and under \<open>ACCOUNT_AGE_THRESHOLD=0.1\<close>, which it reads as the double nearest
  to one tenth.
\<close>

definition reclaimer6 :: RentReclaimer where
  "reclaimer6 = \<lparr>connection = ledger2, feePayer = wallet, treasury = PublicKey ''Treasury'',
     config = \<lparr>minRentThreshold = 1000000, accountAgeThreshold = NaN\<rparr>\<rparr>"

definition reclaimer7 :: RentReclaimer where
  "reclaimer7 = \<lparr>connection = ledger2, feePayer = wallet, treasury = PublicKey ''Treasury'',
     config = \<lparr>minRentThreshold = 1000000,
       accountAgeThreshold = Finite (3602879701896397 / 36028797018963968)\<rparr>\<rparr>"

definition sponsored :: "string \<Rightarrow> int \<Rightarrow> nat \<Rightarrow> int option \<Rightarrow> SponsoredAccount" where
  "sponsored addr n len act = \<lparr>address = addr, lamports = n, owner = toBase58 tokenProgram,
     executable = False, dataLength = len, lastActivity = act\<rparr>"

text \<open>
  \<open>ledger4\<close>: the fee payer has one transaction, between \<open>A\<close> and \<open>B\<close>; the
  account lookup of \<open>A\<close> throws. \<open>ledger5\<close>: the history query itself throws.
\<close>

definition ledger4 :: Connection where
  "ledger4 =
     \<lparr>getSignaturesForAddress = (\<lambda>pk limit.
        if pk = PublicKey ''FeePayer''
        then Inr [\<lparr>ConfirmedSignatureInfo.signature = ''s1'', blockTime = Some 1699990000\<rparr>]
        else Inr []),
      getParsedTransaction = (\<lambda>s.
        if s = ''s1''
        then Inr (Some [\<lparr>pubkey = PublicKey ''A''\<rparr>, \<lparr>pubkey = PublicKey ''B''\<rparr>])
        else Inr None),
      getAccountInfo = (\<lambda>pk.
        if pk = PublicKey ''A'' then Inl ''503 Service Unavailable''
        else if pk = PublicKey ''B''
        then Inr (Some \<lparr>AccountInfo.lamports = 2039280, owner = tokenProgram,
                         executable = False, data = replicate 165 0\<rparr>)
        else Inr None),
      sendAndConfirmTransaction = (\<lambda>tx signers. Inl ''Signature verification failed'')\<rparr>"

definition reclaimer4 :: RentReclaimer where
  "reclaimer4 = \<lparr>connection = ledger4, feePayer = wallet, treasury = PublicKey ''Treasury'',
     config = \<lparr>minRentThreshold = 1000000, accountAgeThreshold = Finite 7\<rparr>\<rparr>"

definition ledger5 :: Connection where
  "ledger5 =
     \<lparr>getSignaturesForAddress = (\<lambda>pk limit. Inl ''429 Too Many Requests''),
      getParsedTransaction = (\<lambda>s. Inr None),
      getAccountInfo = (\<lambda>pk. Inr None),
      sendAndConfirmTransaction = (\<lambda>tx signers. Inl ''Signature verification failed'')\<rparr>"

definition reclaimer5 :: RentReclaimer where
  "reclaimer5 = \<lparr>connection = ledger5, feePayer = wallet, treasury = PublicKey ''Treasury'',
     config = \<lparr>minRentThreshold = 1000000, accountAgeThreshold = Finite 7\<rparr>\<rparr>"

lemmas scenario_defs = world0_def runtime0_def runtime7_def wallet_def tokenProgram_def
  ledger1_def reclaimer1_def stale1_def ledger2_def reclaimer2_def reclaimer3_def
  reclaimer6_def reclaimer7_def sponsored_def
  ledger4_def reclaimer4_def ledger5_def reclaimer5_def

lemmas discover_defs = getSponsoredAccounts_def fetchAccountInfo_def logger_info_def
  logger_error_def Let_def

lemmas reclaim_defs = reclaimRent_def closeAccountAndReclaimRent_def logReclaimOperation_def
  Date_now_def logger_info_def logger_error_def SystemProgram_programId_def getStats_def

section \<open>Double arithmetic: elapsed days against a whole number of days\<close>

lemma roundTiesToEven_ge:
  assumes "of_int n \<le> y"
  shows "n \<le> roundTiesToEven y"
proof -
  from assms have "n \<le> \<lfloor>y\<rfloor>" by (simp add: le_floor_iff)
  moreover have "\<lfloor>y\<rfloor> \<le> roundTiesToEven y"
    by (simp add: roundTiesToEven_def Let_def)
  ultimately show ?thesis by simp
qed

lemma roundTiesToEven_le:
  assumes "y \<le> of_int n"
  shows "roundTiesToEven y \<le> n"
proof (cases "y = of_int n")
  case True
  then show ?thesis by (simp add: roundTiesToEven_def)
next
  case False
  with assms have "y < of_int n" by simp
  then have "\<lfloor>y\<rfloor> < n" by (simp add: floor_less_iff)
  then show ?thesis by (auto simp add: roundTiesToEven_def Let_def)
qed

lemma roundTiesToEven_less:
  assumes "y < of_int n - 1 / 2"
  shows "roundTiesToEven y < n"
proof -
  have f: "of_int \<lfloor>y\<rfloor> \<le> y" by simp
  from assms have "y < of_int n" by simp
  then have l: "\<lfloor>y\<rfloor> < n" by (simp add: floor_less_iff)
  show ?thesis
  proof (cases "\<lfloor>y\<rfloor> = n - 1")
    case True
    with assms have "y - of_int \<lfloor>y\<rfloor> < 1 / 2" by simp
    then show ?thesis using l by (simp add: roundTiesToEven_def Let_def)
  next
    case False
    with l have "\<lfloor>y\<rfloor> + 1 < n" by simp
    then show ?thesis by (auto simp add: roundTiesToEven_def Let_def)
  qed
qed

lemma exponent_lower:
  assumes "q \<noteq> 0"
  shows "2 powi exponent q \<le> \<bar>q\<bar>"
proof -
  obtain a b where ab: "quotient_of \<bar>q\<bar> = (a, b)" by (cases "quotient_of \<bar>q\<bar>")
  have b: "0 < b" using ab by (rule quotient_of_denom_pos)
  have q: "\<bar>q\<bar> = of_int a / of_int b" using ab by (rule quotient_of_div)
  from assms have "0 < \<bar>q\<bar>" by simp
  with q b have a: "0 < a" by (simp add: zero_less_divide_iff)
  let ?k = "bitlen a - bitlen b"
  show ?thesis
  proof (cases "2 powi ?k \<le> \<bar>q\<bar>")
    case True
    then show ?thesis by (simp add: exponent_def ab)
  next
    case False
    from bitlen_bounds [OF a] have la: "2 ^ nat (bitlen a - 1) \<le> a" by simp
    from bitlen_bounds [OF b] have lb: "b < 2 ^ nat (bitlen b)" by simp
    have pa: "1 \<le> bitlen a" using a by (auto simp add: bitlen_alt_def)
    have pb: "0 \<le> bitlen b" by (rule bitlen_nonneg)
    have "(2::rat) powi (?k - 1) = 2 powi (bitlen a - 1) / 2 powi bitlen b"
      by (simp add: power_int_diff)
    also have "\<dots> = 2 ^ nat (bitlen a - 1) / 2 ^ nat (bitlen b)"
      using pa pb by (simp add: power_int_def)
    also have "\<dots> \<le> of_int a / 2 ^ nat (bitlen b)"
    proof -
      have "(2 ^ nat (bitlen a - 1) :: rat) \<le> of_int a"
        using of_int_le_iff [of "2 ^ nat (bitlen a - 1)" a, where ?'a = rat] la by simp
      then show ?thesis by (simp add: divide_right_mono)
    qed
    also have "\<dots> \<le> of_int a / of_int b"
    proof -
      have "(of_int b :: rat) \<le> 2 ^ nat (bitlen b)"
        using of_int_le_iff [of b "2 ^ nat (bitlen b)", where ?'a = rat] lb by simp
      then show ?thesis using a b by (intro frac_le) simp_all
    qed
    finally have "2 powi (?k - 1) \<le> \<bar>q\<bar>" unfolding q .
    moreover have "exponent q = ?k - 1"
      using False by (simp add: exponent_def ab)
    ultimately show ?thesis by simp
  qed
qed

lemma exponent_upper:
  assumes "q \<noteq> 0"
  shows "\<bar>q\<bar> < 2 powi (exponent q + 1)"
proof -
  obtain a b where ab: "quotient_of \<bar>q\<bar> = (a, b)" by (cases "quotient_of \<bar>q\<bar>")
  have b: "0 < b" using ab by (rule quotient_of_denom_pos)
  have q: "\<bar>q\<bar> = of_int a / of_int b" using ab by (rule quotient_of_div)
  from assms have "0 < \<bar>q\<bar>" by simp
  with q b have a: "0 < a" by (simp add: zero_less_divide_iff)
  let ?k = "bitlen a - bitlen b"
  show ?thesis
  proof (cases "2 powi ?k \<le> \<bar>q\<bar>")
    case False
    then show ?thesis by (simp add: exponent_def ab)
  next
    case True
    from bitlen_bounds [OF a] have la: "a < 2 ^ nat (bitlen a)" by simp
    from bitlen_bounds [OF b] have lb: "2 ^ nat (bitlen b - 1) \<le> b" by simp
    have pa: "0 \<le> bitlen a" by (rule bitlen_nonneg)
    have pb: "1 \<le> bitlen b" using b by (auto simp add: bitlen_alt_def)
    have "of_int a / of_int b < (2 ^ nat (bitlen a) :: rat) / of_int b"
    proof -
      have "(of_int a :: rat) < 2 ^ nat (bitlen a)"
        using of_int_less_iff [of a "2 ^ nat (bitlen a)", where ?'a = rat] la by simp
      then show ?thesis using b by (simp add: divide_strict_right_mono)
    qed
    also have "\<dots> \<le> 2 ^ nat (bitlen a) / 2 ^ nat (bitlen b - 1)"
    proof -
      have "(2 ^ nat (bitlen b - 1) :: rat) \<le> of_int b"
        using of_int_le_iff [of "2 ^ nat (bitlen b - 1)" b, where ?'a = rat] lb by simp
      then show ?thesis by (intro frac_le) simp_all
    qed
    also have "\<dots> = 2 powi bitlen a / 2 powi (bitlen b - 1)"
      using pa pb by (simp add: power_int_def)
    also have "\<dots> = 2 powi (?k + 1)"
    proof -
      have eq: "?k + 1 = bitlen a - (bitlen b - 1)" by simp
      have p: "(2::rat) powi (bitlen a - (bitlen b - 1)) = 2 powi bitlen a / 2 powi (bitlen b - 1)"
        by (rule power_int_diff) simp
      show ?thesis by (simp only: eq p)
    qed
    finally have "\<bar>q\<bar> < 2 powi (?k + 1)" unfolding q .
    moreover have "exponent q = ?k"
      using True by (simp add: exponent_def ab)
    ultimately show ?thesis by simp
  qed
qed


lemma fl64_grid:
  assumes "q \<noteq> 0" and "\<bar>q\<bar> < 2 ^ 27"
  obtains k :: nat where "26 \<le> k"
    and "fl64 q = Finite (of_int (roundTiesToEven (q * 2 ^ k)) / 2 ^ k)"
proof -
  let ?e = "max (exponent q) (- 1022)"
  have "exponent q < 27"
  proof (rule ccontr)
    assume "\<not> exponent q < 27"
    then have "(2::rat) powi 27 \<le> 2 powi exponent q"
      by (intro power_int_increasing) simp_all
    also have "\<dots> \<le> \<bar>q\<bar>" using assms(1) by (rule exponent_lower)
    finally show False using assms(2) by simp
  qed
  then have e: "?e \<le> 26" by simp
  define k where "k = nat (52 - ?e)"
  have k: "26 \<le> k" using e by (simp add: k_def)
  have "?e - 52 = - int k" using e by (simp add: k_def)
  then have u: "(2::rat) powi (?e - 52) = 1 / 2 ^ k"
    by (simp add: power_int_minus_divide)
  let ?m = "roundTiesToEven (q * 2 ^ k)"
  let ?r = "(of_int ?m :: rat) / 2 ^ k"
  have "q * 2 ^ k \<le> of_int (2 ^ (27 + k))"
    using assms(2) by (simp add: power_add)
  then have hi: "?m \<le> 2 ^ (27 + k)" by (rule roundTiesToEven_le)
  have "- (2 ^ 27) * 2 ^ k \<le> q * 2 ^ k"
    using assms(2) by (intro mult_right_mono) (simp_all add: abs_less_iff)
  then have "of_int (- (2 ^ (27 + k))) \<le> q * 2 ^ k"
    by (simp add: power_add)
  then have lo: "- (2 ^ (27 + k)) \<le> ?m" by (rule roundTiesToEven_ge)
  have "\<bar>?m\<bar> \<le> 2 ^ (27 + k)" using hi lo by simp
  then have "\<bar>(of_int ?m :: rat)\<bar> \<le> 2 ^ (27 + k)"
    using of_int_le_iff [of "\<bar>?m\<bar>" "2 ^ (27 + k)", where ?'a = rat] by simp
  then have "\<bar>?r\<bar> \<le> 2 ^ 27"
    by (simp add: power_add pos_divide_le_eq)
  also have "(2::rat) ^ 27 < 2 ^ 1024" by simp
  finally have small: "\<not> 2 ^ 1024 \<le> \<bar>?r\<bar>" by simp
  have "fl64 q = Finite ?r"
    using assms(1) small by (simp add: fl64_def Let_def u)
  with k show ?thesis by (rule that)
qed

lemma fl64_less_int:
  fixes x d :: int
  assumes "\<bar>x\<bar> < 2 ^ 53"
  shows "js_less (fl64 (of_int x / 86400000)) (Finite (of_int d))
     \<longleftrightarrow> (of_int x :: rat) / 86400000 < of_int d"
proof (cases "x = 0")
  case True
  then show ?thesis by (simp add: fl64_def)
next
  case False
  let ?q = "(of_int x :: rat) / 86400000"
  have q0: "?q \<noteq> 0" using False by simp
  have "\<bar>(of_int x :: rat)\<bar> < 2 ^ 53"
    using of_int_less_iff [of "\<bar>x\<bar>" "2 ^ 53", where ?'a = rat] assms by simp
  then have qs: "\<bar>?q\<bar> < 2 ^ 27" by simp
  from fl64_grid [OF q0 qs] obtain k :: nat where k: "26 \<le> k"
    and f: "fl64 ?q = Finite (of_int (roundTiesToEven (?q * 2 ^ k)) / 2 ^ k)"
    by blast
  let ?m = "roundTiesToEven (?q * 2 ^ k)"
  let ?D = "d * 2 ^ k"
  have r: "js_less (fl64 ?q) (Finite (of_int d)) \<longleftrightarrow> ?m < ?D"
  proof -
    have "(of_int ?m :: rat) / 2 ^ k < of_int d \<longleftrightarrow> (of_int ?m :: rat) < of_int ?D"
      by (simp add: pos_divide_less_eq)
    also have "\<dots> \<longleftrightarrow> ?m < ?D" by (simp only: of_int_less_iff)
    finally show ?thesis by (simp add: f)
  qed
  show ?thesis
  proof (cases "?q < of_int d")
    case False
    then have "of_int ?D \<le> ?q * 2 ^ k" by simp
    then have "?D \<le> ?m" by (rule roundTiesToEven_ge)
    with False r show ?thesis by simp
  next
    case True
    then have "x < d * 86400000"
      using of_int_less_iff [of x "d * 86400000", where ?'a = rat] by (simp add: pos_divide_less_eq)
    then have "x + 1 \<le> d * 86400000" by simp
    then have "(of_int x :: rat) + 1 \<le> of_int d * 86400000"
      using of_int_le_iff [of "x + 1" "d * 86400000", where ?'a = rat] by simp
    then have gap: "?q + 1 / 86400000 \<le> of_int d"
      by (simp add: field_simps)
    have "(2::rat) ^ 26 \<le> 2 ^ k" using k by (intro power_increasing) simp_all
    then have "(86400000::rat) < 2 * 2 ^ k" by simp
    then have "1 / (2 * 2 ^ k) < 1 / (86400000::rat)"
      by (intro divide_strict_left_mono) simp_all
    with gap have h: "?q + 1 / (2 * 2 ^ k) < of_int d" by linarith
    define P :: rat where "P = 2 ^ k"
    define y :: rat where "y = ?q"
    have P: "0 < P" by (simp add: P_def)
    from h have "y + 1 / (2 * P) < of_int d" by (simp only: P_def y_def)
    then have "(y + 1 / (2 * P)) * P < of_int d * P"
      using P by (rule mult_strict_right_mono)
    moreover have "(y + 1 / (2 * P)) * P = y * P + 1 / 2"
      using P by (simp add: distrib_right)
    ultimately have "y * P < of_int d * P - 1 / 2" by simp
    then have "?q * 2 ^ k < of_int ?D - 1 / 2"
      by (simp add: P_def y_def)
    then have "?m < ?D" by (rule roundTiesToEven_less)
    with True r show ?thesis by simp
  qed
qed

text \<open>
  Below \<open>2 ^ 53\<close> milliseconds the rounded quotient and the exact one compare alike with
  every integer.
\<close>

lemma js_less_daysSince:
  assumes "\<bar>t - bt * 1000\<bar> < 2 ^ 53"
  shows "js_less (daysSince t bt) (Finite (of_int d))
     \<longleftrightarrow> \<not> at_least (of_int (t - bt * 1000) / (1000 * 60 * 60 * 24)) (Finite (of_int d))"
  using fl64_less_int [OF assms, of d] by (simp add: daysSince_def at_least_def not_le)

lemma js_less_daysSince_numeral:
  assumes "\<bar>t - bt * 1000\<bar> < 2 ^ 53"
  shows "js_less (daysSince t bt) (Finite (numeral n))
     \<longleftrightarrow> (of_int (t - bt * 1000) :: rat) / 86400000 < numeral n"
  using fl64_less_int [OF assms, of "numeral n"] by (simp add: daysSince_def)

lemmas evaluate_defs = identifyReclaimableAccounts_def evaluateAccount_def fetchAccountInfo_def
  isAccountClosed_def hasEmptyData_def hasRecentActivity_def Date_now_def logger_info_def
  logger_warn_def logger_error_def lamportsToSol_def LAMPORTS_PER_SOL_def
  SponsoredAccount.extend_def
  js_less_daysSince_numeral

section \<open>Evaluation: the loop and its body\<close>

lemma fetchAccountInfo_fst:
  "fst (fetchAccountInfo rt c a w) = fst (fetchAccountInfo rt c a w')"
  by (simp add: fetchAccountInfo_def split: sum.splits)

lemma fetchAccountInfo_ticks:
  "ticks (snd (fetchAccountInfo rt c a w)) = ticks w"
  by (simp add: fetchAccountInfo_def logger_error_def split: sum.splits)

lemma hasRecentActivity_ticks_only:
  assumes "ticks w = ticks w'"
  shows "fst (hasRecentActivity rt c a d w) = fst (hasRecentActivity rt c a d w')"
    and "ticks (snd (hasRecentActivity rt c a d w)) = ticks (snd (hasRecentActivity rt c a d w'))"
  using assms
  by (simp_all add: hasRecentActivity_def logger_error_def Date_now_def
      split: sum.splits list.splits option.splits)

lemma evaluateAccount_ticks_only:
  assumes "ticks w = ticks w'"
  shows "fst (evaluateAccount rt this acct w) = fst (evaluateAccount rt this acct w')"
    and "ticks (snd (evaluateAccount rt this acct w)) = ticks (snd (evaluateAccount rt this acct w'))"
proof -
  let ?c = "connection this" and ?a = "address acct"
  obtain i w1 where f: "fetchAccountInfo rt ?c ?a w = (i, w1)" by (cases "fetchAccountInfo rt ?c ?a w")
  obtain i' w1' where f': "fetchAccountInfo rt ?c ?a w' = (i', w1')" by (cases "fetchAccountInfo rt ?c ?a w'")
  have ii: "i' = i"
    using fetchAccountInfo_fst [of rt ?c ?a w w'] f f' by simp
  have tt: "ticks w1 = ticks w1'"
    using fetchAccountInfo_ticks [of rt ?c ?a w] fetchAccountInfo_ticks [of rt ?c ?a w'] f f' assms
    by simp
  let ?d = "accountAgeThreshold (config this)"
  obtain b w2 where r: "hasRecentActivity rt ?c ?a ?d w1 = (b, w2)"
    by (cases "hasRecentActivity rt ?c ?a ?d w1")
  obtain b' w2' where r': "hasRecentActivity rt ?c ?a ?d w1' = (b', w2')"
    by (cases "hasRecentActivity rt ?c ?a ?d w1'")
  have bb: "b' = b" and tt2: "ticks w2 = ticks w2'"
    using hasRecentActivity_ticks_only [OF tt, of rt ?c ?a ?d] r r' by simp_all
  show "fst (evaluateAccount rt this acct w) = fst (evaluateAccount rt this acct w')"
    by (simp add: evaluateAccount_def Let_def f f' ii r r' bb split: option.splits)
  show "ticks (snd (evaluateAccount rt this acct w)) = ticks (snd (evaluateAccount rt this acct w'))"
    using tt tt2
    by (simp add: evaluateAccount_def Let_def f f' ii r r' bb logger_warn_def split: option.splits)
qed

lemma evaluateAccounts_acc:
  "evaluateAccounts rt this xs acc w =
     (acc @ fst (evaluateAccounts rt this xs [] w), snd (evaluateAccounts rt this xs [] w))"
proof (induction xs arbitrary: acc w)
  case Nil
  show ?case by simp
next
  case (Cons a xs)
  obtain p w1 where e: "evaluateAccount rt this a w = (p, w1)" by (cases "evaluateAccount rt this a w")
  show ?case
  proof (cases p)
    case None
    then show ?thesis using e Cons.IH [of acc w1] by simp
  next
    case (Some r)
    then show ?thesis using e Cons.IH [of "acc @ [r]" w1] Cons.IH [of "[r]" w1] by simp
  qed
qed

lemma evaluateAccounts_Cons:
  "evaluateAccounts rt this (a # xs) [] w =
     ((case fst (evaluateAccount rt this a w) of None \<Rightarrow> [] | Some r \<Rightarrow> [r])
        @ fst (evaluateAccounts rt this xs [] (snd (evaluateAccount rt this a w))),
      snd (evaluateAccounts rt this xs [] (snd (evaluateAccount rt this a w))))"
proof -
  obtain p w1 where e: "evaluateAccount rt this a w = (p, w1)" by (cases "evaluateAccount rt this a w")
  show ?thesis
  proof (cases p)
    case None
    then show ?thesis using e by simp
  next
    case (Some r)
    then show ?thesis using e evaluateAccounts_acc [of rt this xs "[r]" w1] by simp
  qed
qed

lemma evaluateAccounts_append:
  "evaluateAccounts rt this (xs @ ys) [] w =
     (fst (evaluateAccounts rt this xs [] w)
        @ fst (evaluateAccounts rt this ys [] (snd (evaluateAccounts rt this xs [] w))),
      snd (evaluateAccounts rt this ys [] (snd (evaluateAccounts rt this xs [] w))))"
proof (induction xs arbitrary: w)
  case Nil
  show ?case by simp
next
  case (Cons a xs)
  show ?case
    by (simp only: append_Cons evaluateAccounts_Cons [of rt this a] Cons.IH fst_conv snd_conv append_assoc)
qed

lemma evaluateAccounts_ticks_only:
  "ticks w = ticks w' \<Longrightarrow>
     fst (evaluateAccounts rt this xs [] w) = fst (evaluateAccounts rt this xs [] w') \<and>
     ticks (snd (evaluateAccounts rt this xs [] w)) = ticks (snd (evaluateAccounts rt this xs [] w'))"
proof (induction xs arbitrary: w w')
  case Nil
  then show ?case by simp
next
  case (Cons a xs)
  note e = evaluateAccount_ticks_only [OF Cons.prems, of rt this a]
  show ?case
    using Cons.IH [OF e(2)] e(1) by (simp only: evaluateAccounts_Cons [of rt this a] fst_conv snd_conv)
qed

lemma identify_fst:
  "fst (identifyReclaimableAccounts rt this xs w) = fst (evaluateAccounts rt this xs [] w)"
proof -
  have "ticks (logger_info Identifying_reclaimable_accounts w) = ticks w"
    by (simp add: logger_info_def)
  from evaluateAccounts_ticks_only [OF this, of rt this xs]
  show ?thesis
    by (simp add: identifyReclaimableAccounts_def case_prod_beta Let_def)
qed

lemma identify_ticks:
  "ticks (snd (identifyReclaimableAccounts rt this xs w)) = ticks (snd (evaluateAccounts rt this xs [] w))"
proof -
  have "ticks (logger_info Identifying_reclaimable_accounts w) = ticks w"
    by (simp add: logger_info_def)
  from evaluateAccounts_ticks_only [OF this, of rt this xs]
  show ?thesis
    by (simp add: identifyReclaimableAccounts_def case_prod_beta Let_def) (simp add: logger_info_def)
qed

lemma identify_append:
  "fst (identifyReclaimableAccounts rt this (xs @ ys) w) =
     fst (identifyReclaimableAccounts rt this xs w)
       @ fst (identifyReclaimableAccounts rt this ys (snd (identifyReclaimableAccounts rt this xs w)))"
  using evaluateAccounts_ticks_only [OF identify_ticks [of rt this xs w], of rt this ys]
  by (simp add: identify_fst evaluateAccounts_append)

lemma identify_single:
  "fst (identifyReclaimableAccounts rt this [a] w) =
     (case fst (evaluateAccount rt this a w) of None \<Rightarrow> [] | Some r \<Rightarrow> [r])"
  by (simp add: identify_fst evaluateAccounts_Cons del: evaluateAccounts.simps(2))

lemma identify_split:
  "fst (identifyReclaimableAccounts rt this (xs @ a # ys) w) =
     fst (identifyReclaimableAccounts rt this xs w)
       @ (case fst (evaluateAccount rt this a (snd (identifyReclaimableAccounts rt this xs w))) of
            None \<Rightarrow> [] | Some r \<Rightarrow> [r])
       @ fst (identifyReclaimableAccounts rt this ys
            (snd (identifyReclaimableAccounts rt this (xs @ [a]) w)))"
proof -
  let ?f = "\<lambda>zs v. fst (identifyReclaimableAccounts rt this zs v)"
  let ?s = "\<lambda>zs v. snd (identifyReclaimableAccounts rt this zs v)"
  have "?f (xs @ a # ys) w = ?f ((xs @ [a]) @ ys) w" by simp
  also have "\<dots> = ?f (xs @ [a]) w @ ?f ys (?s (xs @ [a]) w)"
    by (rule identify_append)
  also have "?f (xs @ [a]) w = ?f xs w @ ?f [a] (?s xs w)"
    by (rule identify_append)
  finally show ?thesis
    by (simp only: identify_single append_assoc)
qed

subsection \<open>One account\<close>

lemma fetchAccountInfo_ok:
  "newPublicKey rt a = Inr pk \<Longrightarrow> getAccountInfo c pk = Inr info \<Longrightarrow>
     fetchAccountInfo rt c a w = (info, w)"
  by (simp add: fetchAccountInfo_def)

lemma evaluateAccount_closed:
  assumes "fst (fetchAccountInfo rt (connection this) (address acct) w) = info"
    and "isAccountClosed info"
  shows "fst (evaluateAccount rt this acct w) =
     (if minRentThreshold (config this) \<le> SponsoredAccount.lamports acct
      then Some (SponsoredAccount.extend acct
             \<lparr>reason = ACCOUNT_CLOSED, estimatedRent = SponsoredAccount.lamports acct\<rparr>)
      else None)"
  using assms by (simp add: evaluateAccount_def Let_def case_prod_beta)

lemma hasRecentActivity_spec:
  assumes "newPublicKey rt a = Inr pk"
    and "d = Finite (of_int n)"
    and "case getSignaturesForAddress c pk 1 of
           Inl e \<Rightarrow> True
         | Inr [] \<Rightarrow> True
         | Inr (s # rest) \<Rightarrow>
             (case blockTime s of
                None \<Rightarrow> True
              | Some bt \<Rightarrow> bt \<noteq> 0 \<and> \<bar>now rt (ticks w) - bt * 1000\<bar> < 2 ^ 53)"
  shows "fst (hasRecentActivity rt c a d w) =
     (\<not> spec_inactive (getSignaturesForAddress c pk 1) (now rt (ticks w)) d)"
proof (cases "getSignaturesForAddress c pk 1")
  case (Inl e)
  then show ?thesis
    using assms(1) by (simp add: hasRecentActivity_def spec_inactive_def)
next
  case (Inr sigs)
  show ?thesis
  proof (cases sigs)
    case Nil
    then show ?thesis
      using assms(1) Inr by (simp add: hasRecentActivity_def spec_inactive_def)
  next
    case (Cons s rest)
    show ?thesis
    proof (cases "blockTime s")
      case None
      then show ?thesis
        using assms(1) Inr Cons by (simp add: hasRecentActivity_def spec_inactive_def)
    next
      case (Some bt)
      with assms(3) Inr Cons have z: "bt \<noteq> 0"
        and r: "\<bar>now rt (ticks w) - bt * 1000\<bar> < 2 ^ 53" by simp_all
      show ?thesis
        using assms(1) Inr Cons Some z js_less_daysSince [OF r, of n]
        by (simp add: hasRecentActivity_def spec_inactive_def Date_now_def assms(2))
    qed
  qed
qed

lemma evaluateAccount_live:
  assumes "newPublicKey rt (address acct) = Inr pk"
    and "getAccountInfo (connection this) pk = Inr (Some live)"
    and "AccountInfo.lamports live \<noteq> 0"
    and "data live \<noteq> []"
    and "minRentThreshold (config this) \<le> AccountInfo.lamports live"
  shows "fst (evaluateAccount rt this acct w) =
     (if \<not> fst (hasRecentActivity rt (connection this) (address acct)
                 (accountAgeThreshold (config this)) w)
      then Some ((SponsoredAccount.extend acct
              \<lparr>reason = ACCOUNT_INACTIVE, estimatedRent = AccountInfo.lamports live\<rparr>)
              \<lparr>SponsoredAccount.lamports := AccountInfo.lamports live\<rparr>)
      else None)"
  using assms
  by (simp add: evaluateAccount_def Let_def fetchAccountInfo_ok isAccountClosed_def
      hasEmptyData_def case_prod_beta)

lemma evaluateAccount_estimate:
  assumes "fst (evaluateAccount rt this acct w) = Some r"
  shows "minRentThreshold (config this) \<le> estimatedRent r"
    and "0 < minRentThreshold (config this) \<Longrightarrow> 0 < estimatedRent r"
    and "SponsoredAccount.lamports r = estimatedRent r"
    and "address r = address acct"
    and "reason r = ACCOUNT_CLOSED \<Longrightarrow> estimatedRent r = SponsoredAccount.lamports acct"
    and "reason r \<noteq> ACCOUNT_CLOSED \<Longrightarrow>
           \<exists>live. fst (fetchAccountInfo rt (connection this) (address acct) w) = Some live
             \<and> AccountInfo.lamports live \<noteq> 0
             \<and> estimatedRent r = AccountInfo.lamports live"
  using assms
  by (auto simp add: evaluateAccount_def Let_def case_prod_beta SponsoredAccount.extend_def
      isAccountClosed_def split: if_splits option.splits)

lemma evaluateAccounts_member:
  "r \<in> set (fst (evaluateAccounts rt this xs [] w)) \<Longrightarrow>
     \<exists>acct \<in> set xs. \<exists>w'. fst (evaluateAccount rt this acct w') = Some r"
proof (induction xs arbitrary: w)
  case Nil
  then show ?case by simp
next
  case (Cons a xs)
  from Cons.prems
  have "fst (evaluateAccount rt this a w) = Some r
      \<or> r \<in> set (fst (evaluateAccounts rt this xs [] (snd (evaluateAccount rt this a w))))"
    by (auto simp add: evaluateAccounts_Cons simp del: evaluateAccounts.simps split: option.splits)
  then show ?case
  proof
    assume "fst (evaluateAccount rt this a w) = Some r"
    then show ?thesis by auto
  next
    assume "r \<in> set (fst (evaluateAccounts rt this xs [] (snd (evaluateAccount rt this a w))))"
    from Cons.IH [OF this] show ?thesis by auto
  qed
qed

lemma evaluateAccount_same_answer:
  assumes "reachesActivityCheck this (fst (fetchAccountInfo rt (connection this) (address acct) w0))
      \<Longrightarrow> fst (hasRecentActivity rt (connection this) (address acct)
                 (accountAgeThreshold (config this)) u)
           = fst (hasRecentActivity rt (connection this) (address acct)
                 (accountAgeThreshold (config this)) v)"
  shows "fst (evaluateAccount rt this acct u) = fst (evaluateAccount rt this acct v)"
proof -
  let ?c = "connection this" and ?a = "address acct" and ?d = "accountAgeThreshold (config this)"
  obtain i u1 where f: "fetchAccountInfo rt ?c ?a u = (i, u1)" by (cases "fetchAccountInfo rt ?c ?a u")
  obtain i' v1 where f': "fetchAccountInfo rt ?c ?a v = (i', v1)" by (cases "fetchAccountInfo rt ?c ?a v")
  have ii: "i' = i"
    using fetchAccountInfo_fst [of rt ?c ?a u v] f f' by simp
  have i0: "fst (fetchAccountInfo rt ?c ?a w0) = i"
    using fetchAccountInfo_fst [of rt ?c ?a w0 u] f by simp
  have tu: "ticks u1 = ticks u"
    using fetchAccountInfo_ticks [of rt ?c ?a u] f by simp
  have tv: "ticks v1 = ticks v"
    using fetchAccountInfo_ticks [of rt ?c ?a v] f' by simp
  have h: "reachesActivityCheck this i \<Longrightarrow>
      fst (hasRecentActivity rt ?c ?a ?d u1) = fst (hasRecentActivity rt ?c ?a ?d v1)"
    using assms hasRecentActivity_ticks_only(1) [OF tu, of rt ?c ?a ?d]
      hasRecentActivity_ticks_only(1) [OF tv, of rt ?c ?a ?d]
    by (simp add: i0)
  show ?thesis
  proof (cases "reachesActivityCheck this i")
    case True
    with h show ?thesis
      by (simp add: evaluateAccount_def Let_def f f' ii case_prod_beta split: option.splits)
  next
    case False
    then show ?thesis
      by (auto simp add: evaluateAccount_def Let_def f f' ii case_prod_beta
          reachesActivityCheck_def split: option.splits)
  qed
qed

lemma evaluateAccounts_same_answers:
  assumes "\<forall>i < length xs.
             reachesActivityCheck this
               (fst (fetchAccountInfo rt (connection this) (address (xs ! i)) w0))
             \<longrightarrow> fst (hasRecentActivity rt (connection this) (address (xs ! i))
                       (accountAgeThreshold (config this))
                       (snd (evaluateAccounts rt this (take i xs) [] u)))
                 = fst (hasRecentActivity rt (connection this) (address (xs ! i))
                       (accountAgeThreshold (config this))
                       (snd (evaluateAccounts rt this (take i xs) [] v)))"
  shows "fst (evaluateAccounts rt this xs [] u) = fst (evaluateAccounts rt this xs [] v)"
  using assms
proof (induction xs arbitrary: u v)
  case Nil
  show ?case by simp
next
  case (Cons a xs)
  have h: "fst (evaluateAccount rt this a u) = fst (evaluateAccount rt this a v)"
  proof (rule evaluateAccount_same_answer [of this rt a w0])
    assume "reachesActivityCheck this (fst (fetchAccountInfo rt (connection this) (address a) w0))"
    with Cons.prems [rule_format, of 0] show
      "fst (hasRecentActivity rt (connection this) (address a)
              (accountAgeThreshold (config this)) u)
       = fst (hasRecentActivity rt (connection this) (address a)
              (accountAgeThreshold (config this)) v)"
      by simp
  qed
  have t: "fst (evaluateAccounts rt this xs [] (snd (evaluateAccount rt this a u)))
      = fst (evaluateAccounts rt this xs [] (snd (evaluateAccount rt this a v)))"
  proof (rule Cons.IH, intro allI impI)
    fix i
    assume i: "i < length xs"
      and r: "reachesActivityCheck this
               (fst (fetchAccountInfo rt (connection this) (address (xs ! i)) w0))"
    from Cons.prems [rule_format, of "Suc i"] i r
    show "fst (hasRecentActivity rt (connection this) (address (xs ! i))
                       (accountAgeThreshold (config this))
                       (snd (evaluateAccounts rt this (take i xs) []
                          (snd (evaluateAccount rt this a u)))))
                 = fst (hasRecentActivity rt (connection this) (address (xs ! i))
                       (accountAgeThreshold (config this))
                       (snd (evaluateAccounts rt this (take i xs) []
                          (snd (evaluateAccount rt this a v)))))"
      by (simp add: evaluateAccounts_Cons del: evaluateAccounts.simps)
  qed
  show ?case
    by (simp only: evaluateAccounts_Cons fst_conv h t)
qed

lemma evaluateAccount_lastActivity:
  assumes "a\<lparr>lastActivity := None\<rparr> = b\<lparr>lastActivity := None\<rparr>"
  shows "snd (evaluateAccount rt this a w) = snd (evaluateAccount rt this b w)"
    and "map_option (\<lambda>r. r\<lparr>lastActivity := None\<rparr>) (fst (evaluateAccount rt this a w))
       = map_option (\<lambda>r. r\<lparr>lastActivity := None\<rparr>) (fst (evaluateAccount rt this b w))"
proof -
  obtain ad la ow ex dl act where a: "a = \<lparr>address = ad, lamports = la, owner = ow,
      executable = ex, dataLength = dl, lastActivity = act\<rparr>"
    by (cases a) simp
  from assms have b: "b = \<lparr>address = ad, lamports = la, owner = ow,
      executable = ex, dataLength = dl, lastActivity = lastActivity b\<rparr>"
    unfolding a by (cases b) simp
  show "snd (evaluateAccount rt this a w) = snd (evaluateAccount rt this b w)"
    by (subst b, subst a)
      (simp add: evaluateAccount_def Let_def case_prod_beta split: option.splits)
  show "map_option (\<lambda>r. r\<lparr>lastActivity := None\<rparr>) (fst (evaluateAccount rt this a w))
       = map_option (\<lambda>r. r\<lparr>lastActivity := None\<rparr>) (fst (evaluateAccount rt this b w))"
    by (subst b, subst a)
      (simp add: evaluateAccount_def Let_def case_prod_beta SponsoredAccount.extend_def
        split: option.splits)
qed

lemma evaluateAccounts_lastActivity:
  assumes "map (\<lambda>a. a\<lparr>lastActivity := None\<rparr>) xs = map (\<lambda>a. a\<lparr>lastActivity := None\<rparr>) ys"
  shows "map (\<lambda>r. r\<lparr>lastActivity := None\<rparr>) (fst (evaluateAccounts rt this xs [] w))
       = map (\<lambda>r. r\<lparr>lastActivity := None\<rparr>) (fst (evaluateAccounts rt this ys [] w))"
  using assms
proof (induction xs arbitrary: ys w)
  case Nil
  then show ?case by simp
next
  case (Cons a xs)
  from Cons.prems obtain b zs where ys: "ys = b # zs"
    and ab: "a\<lparr>lastActivity := None\<rparr> = b\<lparr>lastActivity := None\<rparr>"
    and r: "map (\<lambda>a. a\<lparr>lastActivity := None\<rparr>) xs = map (\<lambda>a. a\<lparr>lastActivity := None\<rparr>) zs"
    by (cases ys) auto
  note e = evaluateAccount_lastActivity [OF ab, of rt this w]
  have h: "map (\<lambda>r. r\<lparr>lastActivity := None\<rparr>)
        (case fst (evaluateAccount rt this a w) of None \<Rightarrow> [] | Some r \<Rightarrow> [r])
      = map (\<lambda>r. r\<lparr>lastActivity := None\<rparr>)
        (case fst (evaluateAccount rt this b w) of None \<Rightarrow> [] | Some r \<Rightarrow> [r])"
    using e(2)
    by (cases "fst (evaluateAccount rt this a w)"; cases "fst (evaluateAccount rt this b w)")
      simp_all
  show ?case
    unfolding ys
    by (simp only: evaluateAccounts_Cons fst_conv map_append h e(1) Cons.IH [OF r])
qed

text \<open>
  A most recent signature with block time 0 counts as recent activity, whatever the
  clock and the threshold say.
\<close>

lemma hasRecentActivity_zero_blockTime:
  assumes "newPublicKey rt a = Inr pk"
    and "getSignaturesForAddress c pk 1 = Inr (s # rest)"
    and "blockTime s = Some 0"
  shows "hasRecentActivity rt c a d w = (True, w)"
  using assms by (simp add: hasRecentActivity_def)

text \<open>
  The \<open>catch\<close> of the loop body is never entered: no run logs a skipped account.
\<close>

lemma evaluateAccount_never_skips:
  assumes "(WARN, m) \<in> set (logs (snd (evaluateAccount rt this acct w)))"
  shows "(WARN, m) \<in> set (logs w)"
proof -
  let ?c = "connection this" and ?a = "address acct" and ?d = "accountAgeThreshold (config this)"
  obtain i w1 where f: "fetchAccountInfo rt ?c ?a w = (i, w1)"
    by (cases "fetchAccountInfo rt ?c ?a w")
  obtain b w2 where h: "hasRecentActivity rt ?c ?a ?d w1 = (b, w2)"
    by (cases "hasRecentActivity rt ?c ?a ?d w1")
  have l1: "(WARN, m) \<in> set (logs w1) \<Longrightarrow> (WARN, m) \<in> set (logs w)"
    using f by (auto simp add: fetchAccountInfo_def logger_error_def split: sum.splits)
  have l2: "(WARN, m) \<in> set (logs w2) \<Longrightarrow> (WARN, m) \<in> set (logs w1)"
    using h
    by (auto simp add: hasRecentActivity_def logger_error_def Date_now_def
        split: sum.splits list.splits option.splits if_splits)
  from assms have "(WARN, m) \<in> set (logs w1) \<or> (WARN, m) \<in> set (logs w2)"
    by (auto simp add: evaluateAccount_def Let_def f h isAccountClosed_def
        split: option.splits if_splits)
  with l1 l2 show ?thesis by blast
qed

section \<open>Discovery: the invariant holds along both loops\<close>

lemma fetchAccountInfo_fails:
  "fetchFails rt conn addr err \<Longrightarrow>
     fetchAccountInfo rt conn addr w = (None, logger_error (fetchAccountInfo_failed addr err) w)"
  by (auto simp add: fetchFails_def fetchAccountInfo_def split: sum.splits)

lemma fetchAccountInfo_Some:
  "fetchAccountInfo rt conn addr w = (Some i, w1) \<Longrightarrow> \<not> fetchFails rt conn addr err \<and> w1 = w"
  by (auto simp add: fetchFails_def fetchAccountInfo_def split: sum.splits)

lemma fetchAccountInfo_logs:
  "set (logs w) \<subseteq> set (logs (snd (fetchAccountInfo rt conn addr w)))"
  by (auto simp add: fetchAccountInfo_def logger_error_def split: sum.splits)

lemma recordedAbsent_mono:
  "recordedAbsent rt conn w r \<Longrightarrow> set (logs w) \<subseteq> set (logs w1) \<Longrightarrow> recordedAbsent rt conn w1 r"
  by (auto simp add: recordedAbsent_def)

lemma discoveryInv_step:
  assumes inv: "discoveryInv rt conn seen result w"
    and f: "fetchAccountInfo rt conn addr w = (info, w1)"
    and r: "address r = addr"
    and n: "info = None \<Longrightarrow> SponsoredAccount.lamports r = 0 \<and> SponsoredAccount.owner r = ''''
             \<and> \<not> SponsoredAccount.executable r \<and> dataLength r = 0"
  shows "discoveryInv rt conn (insert addr seen) (result @ [r]) w1"
proof -
  have l: "set (logs w) \<subseteq> set (logs w1)"
    using fetchAccountInfo_logs [of w rt conn addr] f by simp
  have new: "recordedAbsent rt conn w1 r"
    unfolding recordedAbsent_def
  proof (intro allI impI)
    fix err assume ff: "fetchFails rt conn (address r) err"
    from fetchAccountInfo_fails [of rt conn addr err w] ff r f
    have "info = None" and "w1 = logger_error (fetchAccountInfo_failed addr err) w" by simp_all
    with n r show "SponsoredAccount.lamports r = 0 \<and> SponsoredAccount.owner r = '''' \<and>
        \<not> SponsoredAccount.executable r \<and> dataLength r = 0 \<and>
        (ERROR, fetchAccountInfo_failed (address r) err) \<in> set (logs w1)"
      by (simp add: logger_error_def)
  qed
  show ?thesis
    using inv new r recordedAbsent_mono [OF _ l]
    by (auto simp add: discoveryInv_def)
qed

lemma collectAccountKeys_inv:
  assumes "discoveryInv rt conn seen result w"
    and "collectAccountKeys rt conn sigInfo keys seen result w = (seen', result', w')"
  shows "discoveryInv rt conn seen' result' w' \<and> seen' = seen \<union> (toBase58 \<circ> pubkey) ` set keys"
  using assms
proof (induction keys arbitrary: seen result w)
  case Nil
  then show ?case by simp
next
  case (Cons key keys)
  let ?addr = "toBase58 (pubkey key)"
  show ?case
  proof (cases "?addr \<in> seen")
    case True
    with Cons.prems(2) have "collectAccountKeys rt conn sigInfo keys seen result w = (seen', result', w')"
      by (simp add: Let_def)
    from Cons.IH [OF Cons.prems(1) this] True show ?thesis by auto
  next
    case False
    obtain info w1 where f: "fetchAccountInfo rt conn ?addr w = (info, w1)"
      by (cases "fetchAccountInfo rt conn ?addr w")
    show ?thesis
    proof (cases info)
      case None
      let ?r = "\<lparr>address = ?addr, lamports = 0, owner = '''', executable = False,
                 dataLength = 0, lastActivity = blockTime sigInfo\<rparr>"
      have i: "discoveryInv rt conn (insert ?addr seen) (result @ [?r]) w1"
        by (rule discoveryInv_step [OF Cons.prems(1) f]) simp_all
      from Cons.prems(2) False f None
      have "collectAccountKeys rt conn sigInfo keys (insert ?addr seen) (result @ [?r]) w1
              = (seen', result', w')"
        by (simp add: Let_def)
      from Cons.IH [OF i this] show ?thesis by auto
    next
      case (Some a)
      let ?r = "\<lparr>address = ?addr, lamports = AccountInfo.lamports a,
                 owner = toBase58 (AccountInfo.owner a),
                 executable = AccountInfo.executable a,
                 dataLength = length (data a),
                 lastActivity = blockTime sigInfo\<rparr>"
      have i: "discoveryInv rt conn (insert ?addr seen) (result @ [?r]) w1"
        by (rule discoveryInv_step [OF Cons.prems(1) f]) (simp_all add: Some)
      from Cons.prems(2) False f Some
      have "collectAccountKeys rt conn sigInfo keys (insert ?addr seen) (result @ [?r]) w1
              = (seen', result', w')"
        by (simp add: Let_def)
      from Cons.IH [OF i this] show ?thesis by auto
    qed
  qed
qed

lemma scanSignatures_inv:
  assumes "discoveryInv rt conn seen result w"
    and "scanSignatures rt conn sigs seen result w = (result', w')"
  shows "\<exists>seen'. discoveryInv rt conn seen' result' w' \<and>
           (\<forall>s \<in> set sigs. \<forall>ks. getParsedTransaction conn (ConfirmedSignatureInfo.signature s)
                = Inr (Some ks) \<longrightarrow> (toBase58 \<circ> pubkey) ` set ks \<subseteq> seen') \<and> seen \<subseteq> seen'"
  using assms
proof (induction sigs arbitrary: seen result w)
  case Nil
  then show ?case by auto
next
  case (Cons sigInfo rest)
  let ?p = "getParsedTransaction conn (ConfirmedSignatureInfo.signature sigInfo)"
  show ?case
  proof (cases "\<exists>ks. ?p = Inr (Some ks)")
    case False
    with Cons.prems(2) have "scanSignatures rt conn rest seen result w = (result', w')"
      by (auto split: sum.splits option.splits)
    from Cons.IH [OF Cons.prems(1) this] False show ?thesis by auto
  next
    case True
    then obtain ks where p: "?p = Inr (Some ks)" by blast
    obtain seen1 result1 w1 where c:
      "collectAccountKeys rt conn sigInfo ks seen result w = (seen1, result1, w1)"
      by (cases "collectAccountKeys rt conn sigInfo ks seen result w")
    from collectAccountKeys_inv [OF Cons.prems(1) c]
    have i: "discoveryInv rt conn seen1 result1 w1"
      and s: "seen1 = seen \<union> (toBase58 \<circ> pubkey) ` set ks" by blast+
    from Cons.prems(2) p c have "scanSignatures rt conn rest seen1 result1 w1 = (result', w')"
      by simp
    from Cons.IH [OF i this] obtain seen' where
      a: "discoveryInv rt conn seen' result' w'"
      and b: "\<forall>s \<in> set rest. \<forall>ks. getParsedTransaction conn (ConfirmedSignatureInfo.signature s)
                = Inr (Some ks) \<longrightarrow> (toBase58 \<circ> pubkey) ` set ks \<subseteq> seen'"
      and d: "seen1 \<subseteq> seen'" by blast
    have "(\<forall>s \<in> set (sigInfo # rest). \<forall>ks. getParsedTransaction conn (ConfirmedSignatureInfo.signature s)
                = Inr (Some ks) \<longrightarrow> (toBase58 \<circ> pubkey) ` set ks \<subseteq> seen')"
      using b d s p by auto
    moreover have "seen \<subseteq> seen'" using d s by auto
    ultimately show ?thesis using a by blast
  qed
qed

text \<open>
  What discovery does with a failed fetch, on every ledger: the failure is logged, the
  address is recorded as an absent account, and every address of every parsed
  transaction is in the returned list.
\<close>

lemma failed_fetch_is_recorded:
  assumes "getSignaturesForAddress (connection this) (publicKey (feePayer this)) 100 = Inr sigs"
    and "sigInfo \<in> set sigs"
    and "getParsedTransaction (connection this) (ConfirmedSignatureInfo.signature sigInfo)
           = Inr (Some keys)"
    and "key \<in> set keys"
    and "fetchFails rt (connection this) (toBase58 (pubkey key)) err"
  shows "(\<exists>r \<in> set (fst (getSponsoredAccounts rt this w)).
            address r = toBase58 (pubkey key) \<and> SponsoredAccount.lamports r = 0 \<and>
            SponsoredAccount.owner r = '''' \<and> \<not> SponsoredAccount.executable r \<and>
            dataLength r = 0)
       \<and> (ERROR, fetchAccountInfo_failed (toBase58 (pubkey key)) err)
            \<in> set (logs (snd (getSponsoredAccounts rt this w)))
       \<and> (\<forall>s \<in> set sigs. \<forall>ks k.
             getParsedTransaction (connection this) (ConfirmedSignatureInfo.signature s)
               = Inr (Some ks) \<and> k \<in> set ks
             \<longrightarrow> toBase58 (pubkey k) \<in> address ` set (fst (getSponsoredAccounts rt this w)))"
proof -
  let ?w0 = "logger_info Fetching_sponsored_accounts w"
  let ?c = "connection this"
  obtain result w1 where sc: "scanSignatures rt ?c sigs {} [] ?w0 = (result, w1)"
    by (cases "scanSignatures rt ?c sigs {} [] ?w0")
  have g: "getSponsoredAccounts rt this w
      = (result, logger_info (Found_sponsored_accounts (length result)) w1)"
    using assms(1) sc by (simp add: getSponsoredAccounts_def)
  have "discoveryInv rt ?c {} [] ?w0"
    by (simp add: discoveryInv_def)
  from scanSignatures_inv [OF this sc] obtain seen' where
    a: "discoveryInv rt ?c seen' result w1"
    and b: "\<forall>s \<in> set sigs. \<forall>ks. getParsedTransaction ?c (ConfirmedSignatureInfo.signature s)
                = Inr (Some ks) \<longrightarrow> (toBase58 \<circ> pubkey) ` set ks \<subseteq> seen'"
    by blast
  from a have sr: "address ` set result = seen'"
    and ra: "\<forall>r \<in> set result. recordedAbsent rt ?c w1 r"
    by (simp_all add: discoveryInv_def)
  have all: "\<forall>s \<in> set sigs. \<forall>ks k.
             getParsedTransaction ?c (ConfirmedSignatureInfo.signature s) = Inr (Some ks)
               \<and> k \<in> set ks
             \<longrightarrow> toBase58 (pubkey k) \<in> address ` set result"
  proof (intro ballI allI impI)
    fix s ks k
    assume s: "s \<in> set sigs"
      and "getParsedTransaction ?c (ConfirmedSignatureInfo.signature s) = Inr (Some ks)
             \<and> k \<in> set ks"
    then have "(toBase58 \<circ> pubkey) ` set ks \<subseteq> seen'" and "k \<in> set ks"
      using b by blast+
    then have "toBase58 (pubkey k) \<in> seen'" by auto
    then show "toBase58 (pubkey k) \<in> address ` set result" using sr by simp
  qed
  with assms(2,3,4) have "toBase58 (pubkey key) \<in> address ` set result" by blast
  then obtain r where r: "r \<in> set result" "address r = toBase58 (pubkey key)"
    by auto
  from ra r assms(5) have
    "SponsoredAccount.lamports r = 0 \<and> SponsoredAccount.owner r = '''' \<and>
        \<not> SponsoredAccount.executable r \<and> dataLength r = 0 \<and>
        (ERROR, fetchAccountInfo_failed (toBase58 (pubkey key)) err) \<in> set (logs w1)"
    by (auto simp add: recordedAbsent_def)
  with r all show ?thesis
    unfolding g by (auto simp add: logger_info_def)
qed

section \<open>Reclaim: what is moved and what is counted\<close>

lemma closeAccountAndReclaimRent_moves_balance:
  assumes "closeAccountAndReclaimRent conn payer pk treas w = (res, w1)"
    and "CloseResult.success res"
  shows "\<exists>info sig. getAccountInfo conn pk = Inr (Some info) \<and>
           CloseResult.signature res = Some sig \<and>
           confirmed w1 = confirmed w @
             [(sig, \<lparr>fromPubkey = pk, toPubkey = treas,
                     Transfer.lamports = AccountInfo.lamports info\<rparr>)]"
  using assms
  by (auto simp add: closeAccountAndReclaimRent_def logger_info_def logger_error_def Let_def
      split: sum.splits option.splits if_splits)

lemma closeAccountAndReclaimRent_failure_moves_nothing:
  assumes "closeAccountAndReclaimRent conn payer pk treas w = (res, w1)"
    and "\<not> CloseResult.success res"
  shows "confirmed w1 = confirmed w"
  using assms
  by (auto simp add: closeAccountAndReclaimRent_def logger_info_def logger_error_def Let_def
      split: sum.splits option.splits if_splits)

lemma reclaimRent_reclaimedAmount:
  "reclaimedAmount (fst (reclaimRent rt this account w)) =
     (if ReclaimResult.success (fst (reclaimRent rt this account w))
      then estimatedRent account else 0)"
  by (simp add: reclaimRent_def Let_def case_prod_beta split: sum.splits)

lemma reclaimRent_lifetimeReclaimed:
  "lifetimeReclaimed (snd (reclaimRent rt this account w)) =
     lifetimeReclaimed w + reclaimedAmount (fst (reclaimRent rt this account w))"
proof (cases "newPublicKey rt (address account)")
  case (Inl msg)
  then show ?thesis
    by (simp add: reclaimRent_def Let_def case_prod_beta logReclaimOperation_def Date_now_def
        logger_info_def logger_error_def)
next
  case (Inr pk)
  let ?w0 = "logger_info (Reclaiming (address account) (reason account)) w"
  obtain res w1 where c: "closeAccountAndReclaimRent (connection this) (feePayer this) pk
      (treasury this) ?w0 = (res, w1)"
    by (cases "closeAccountAndReclaimRent (connection this) (feePayer this) pk (treasury this) ?w0")
  have l: "lifetimeReclaimed w1 = lifetimeReclaimed w"
    using c
    by (auto simp add: closeAccountAndReclaimRent_def logger_info_def logger_error_def Let_def
        split: sum.splits option.splits if_splits)
  show ?thesis
    using Inr c l
    by (simp add: reclaimRent_def Let_def case_prod_beta logReclaimOperation_def Date_now_def
        logger_info_def logger_error_def)
qed

section \<open>Claims\<close>

subsection \<open>Reclaim\<close>

text \<open>
  C1. The claim: a successful \<open>reclaimRent\<close> reports as \<open>reclaimedAmount\<close> the
  balance the account held on the ledger immediately before the transfer, which is the
  amount moved to the treasury. The code reports \<open>account.estimatedRent\<close> instead.
  The transfer is signed by the fee payer alone, so the attempt can only succeed on the
  fee payer's own account. On \<open>ledger1\<close> that account holds 3000000 lamports when the
  transfer is built, the evaluation had estimated 2000000: the attempt succeeds, the
  confirmed transfer moves 3000000, and the result reports 2000000.
\<close>

theorem reclaimRent_reports_estimate_not_amount_moved:
  "address stale1 = toBase58 (publicKey (feePayer reclaimer1)) \<and>
   getAccountInfo (connection reclaimer1) (publicKey (feePayer reclaimer1))
     = Inr (Some \<lparr>AccountInfo.lamports = 3000000, owner = SystemProgram_programId,
                   executable = False, data = []\<rparr>) \<and>
   ReclaimResult.success (fst (reclaimRent runtime0 reclaimer1 stale1 world0)) = True \<and>
   reclaimedAmount (fst (reclaimRent runtime0 reclaimer1 stale1 world0)) = 2000000 \<and>
   confirmed (snd (reclaimRent runtime0 reclaimer1 stale1 world0))
     = [(''sig1'', \<lparr>fromPubkey = PublicKey ''FeePayer'', toPubkey = PublicKey ''Treasury'',
                    Transfer.lamports = 3000000\<rparr>)]"
  by (simp add: scenario_defs reclaim_defs)

text \<open>
  C4. The claim: a successful attempt adds to the lifetime counter, which \<open>getStats\<close>
  reports as \<open>totalRentReclaimed\<close>, the amount moved to the treasury. The code adds
  \<open>account.estimatedRent\<close>. In the scenario of C1, on the fee payer's own account, the
  counter grows by 2000000 while 3000000 lamports are moved.
\<close>

theorem lifetime_counter_adds_estimate_not_amount_moved:
  "address stale1 = toBase58 (publicKey (feePayer reclaimer1)) \<and>
   ReclaimResult.success (fst (reclaimRent runtime0 reclaimer1 stale1 world0)) = True \<and>
   totalRentReclaimed (getStats [] [] (snd (reclaimRent runtime0 reclaimer1 stale1 world0)))
     - totalRentReclaimed (getStats [] [] world0) = 2000000 \<and>
   map (\<lambda>(sig, tx). Transfer.lamports tx)
     (confirmed (snd (reclaimRent runtime0 reclaimer1 stale1 world0))) = [3000000]"
  by (simp add: scenario_defs reclaim_defs)

text \<open>
  On the same ledger the attempt on \<open>A\<close>, which the fee payer's signature does not
  cover, fails before anything is sent: the result reports 0 and the counter stays.
\<close>

lemma reclaimRent_other_account_fails:
  "fst (reclaimRent runtime0 reclaimer1 (stale1\<lparr>address := ''A''\<rparr>) world0) =
     \<lparr>ReclaimResult.success = False, accountAddress = ''A'', reclaimedAmount = 0,
      ReclaimResult.signature = None,
      ReclaimResult.error = Some ''Signature verification failed. Missing signature'',
      timestamp = 1700000000000\<rparr> \<and>
   lifetimeReclaimed
     (snd (reclaimRent runtime0 reclaimer1 (stale1\<lparr>address := ''A''\<rparr>) world0)) = 0 \<and>
   confirmed
     (snd (reclaimRent runtime0 reclaimer1 (stale1\<lparr>address := ''A''\<rparr>) world0)) = []"
  by (simp add: scenario_defs reclaim_defs)

subsection \<open>Evaluate\<close>

text \<open>
  C5. An input account whose snapshot, fetched at evaluation time, is absent or has
  balance 0 contributes to the result exactly the record tagged closed, with the
  balance captured at discovery as its estimate, when that balance is at least
  \<open>minRentThreshold\<close>; it contributes nothing otherwise. This holds at every
  position of the input list: \<open>xs\<close> are the accounts before it, \<open>ys\<close> the ones
  after.
\<close>

theorem closed_tier_uses_discovery_balance:
  assumes "newPublicKey rt (address acct) = Inr pk"
    and "getAccountInfo (connection this) pk = Inr info"
    and "info = None \<or> (\<exists>i. info = Some i \<and> AccountInfo.lamports i = 0)"
  shows "fst (identifyReclaimableAccounts rt this (xs @ acct # ys) w) =
     fst (identifyReclaimableAccounts rt this xs w)
     @ (if minRentThreshold (config this) \<le> SponsoredAccount.lamports acct
        then [SponsoredAccount.extend acct
               \<lparr>reason = ACCOUNT_CLOSED, estimatedRent = SponsoredAccount.lamports acct\<rparr>]
        else [])
     @ fst (identifyReclaimableAccounts rt this ys
         (snd (identifyReclaimableAccounts rt this (xs @ [acct]) w)))"
proof -
  let ?w1 = "snd (identifyReclaimableAccounts rt this xs w)"
  have c: "isAccountClosed info"
    using assms(3) by (auto simp add: isAccountClosed_def)
  have f: "fst (fetchAccountInfo rt (connection this) (address acct) ?w1) = info"
    using assms(1,2) by (simp add: fetchAccountInfo_ok)
  show ?thesis
    by (simp add: identify_split [of rt this xs acct ys w] evaluateAccount_closed [OF f c])
qed

text \<open>
  The scenario of the specification: a closed account with last-known balance 2000000
  under threshold 1000000 is reclaimable, reason closed, estimate 2000000.
\<close>

theorem closed_tier_uses_discovery_balance_witness:
  "getAccountInfo (connection reclaimer2) (PublicKey ''B'') = Inr None \<and>
   fst (identifyReclaimableAccounts runtime0 reclaimer2 [sponsored ''B'' 2000000 0 None] world0)
     = [\<lparr>address = ''B'', lamports = 2000000, owner = toBase58 tokenProgram, executable = False,
          dataLength = 0, lastActivity = None, reason = ACCOUNT_CLOSED, estimatedRent = 2000000\<rparr>]"
proof -
  have k: "newPublicKey runtime0 (address (sponsored ''B'' 2000000 0 None)) = Inr (PublicKey ''B'')"
    by (simp add: scenario_defs)
  have g: "getAccountInfo (connection reclaimer2) (PublicKey ''B'') = Inr None"
    by (simp add: scenario_defs)
  from closed_tier_uses_discovery_balance [OF k g, of "[]" "[]" world0] g show ?thesis
    by (simp add: scenario_defs evaluate_defs)
qed

text \<open>
  C2, as amended. The threshold is a whole number of days and the elapsed
  milliseconds stay below \<open>2 ^ 53\<close>. An input account whose fresh snapshot exists with a
  non-zero balance of at least \<open>minRentThreshold\<close> and a non-empty payload, and whose
  most-recent-signature lookup does not return the timestamp 0, contributes exactly
  the record tagged inactive (balance and estimate both the fresh balance) when the
  activity rule of the specification holds of that lookup at the clock reading of that
  moment, and nothing otherwise; a failed lookup and a missing timestamp exclude the
  account. Nothing is stated of a lookup that returns the timestamp 0.
\<close>

theorem inactive_tier_follows_activity_rule:
  assumes "newPublicKey rt (address acct) = Inr pk"
    and "getAccountInfo (connection this) pk = Inr (Some live)"
    and "AccountInfo.lamports live \<noteq> 0"
    and "data live \<noteq> []"
    and "minRentThreshold (config this) \<le> AccountInfo.lamports live"
    and "accountAgeThreshold (config this) = Finite (of_int n)"
    and "case getSignaturesForAddress (connection this) pk 1 of
           Inl e \<Rightarrow> True
         | Inr [] \<Rightarrow> True
         | Inr (s # rest) \<Rightarrow>
             (case blockTime s of
                None \<Rightarrow> True
              | Some bt \<Rightarrow>
                  bt \<noteq> 0 \<and>
                  \<bar>now rt (ticks (snd (identifyReclaimableAccounts rt this xs w))) - bt * 1000\<bar>
                    < 2 ^ 53)"
  shows "fst (identifyReclaimableAccounts rt this (xs @ acct # ys) w) =
     fst (identifyReclaimableAccounts rt this xs w)
     @ (if spec_inactive (getSignaturesForAddress (connection this) pk 1)
             (now rt (ticks (snd (identifyReclaimableAccounts rt this xs w))))
             (accountAgeThreshold (config this))
        then [(SponsoredAccount.extend acct
               \<lparr>reason = ACCOUNT_INACTIVE, estimatedRent = AccountInfo.lamports live\<rparr>)
               \<lparr>SponsoredAccount.lamports := AccountInfo.lamports live\<rparr>]
        else [])
     @ fst (identifyReclaimableAccounts rt this ys
         (snd (identifyReclaimableAccounts rt this (xs @ [acct]) w)))"
  by (simp add: identify_split [of rt this xs acct ys w]
      evaluateAccount_live [OF assms(1-5)]
      hasRecentActivity_spec [OF assms(1) assms(6) assms(7)])

text \<open>
  The scenario of the specification: balance 3000000, payload of 32 bytes, last
  activity ten days ago, threshold 7 days: reclaimable, reason inactive.
\<close>

theorem inactive_tier_follows_activity_rule_witness:
  "getAccountInfo (connection reclaimer2) (PublicKey ''C'')
     = Inr (Some \<lparr>AccountInfo.lamports = 3000000, owner = tokenProgram,
                   executable = False, data = replicate 32 0\<rparr>) \<and>
   getSignaturesForAddress (connection reclaimer2) (PublicKey ''C'') 1
     = Inr [\<lparr>ConfirmedSignatureInfo.signature = ''s7'', blockTime = Some 1699136000\<rparr>] \<and>
   fst (identifyReclaimableAccounts runtime0 reclaimer2
          [sponsored ''C'' 2500000 32 (Some 1699136000)] world0)
     = [\<lparr>address = ''C'', lamports = 3000000, owner = toBase58 tokenProgram, executable = False,
          dataLength = 32, lastActivity = Some 1699136000,
          reason = ACCOUNT_INACTIVE, estimatedRent = 3000000\<rparr>]"
proof -
  let ?live = "\<lparr>AccountInfo.lamports = 3000000, owner = tokenProgram,
                   executable = False, data = replicate 32 0\<rparr>"
  have k: "newPublicKey runtime0 (address (sponsored ''C'' 2500000 32 (Some 1699136000)))
      = Inr (PublicKey ''C'')"
    by (simp add: scenario_defs)
  have g: "getAccountInfo (connection reclaimer2) (PublicKey ''C'') = Inr (Some ?live)"
    by (simp add: scenario_defs)
  have s: "getSignaturesForAddress (connection reclaimer2) (PublicKey ''C'') 1
     = Inr [\<lparr>ConfirmedSignatureInfo.signature = ''s7'', blockTime = Some 1699136000\<rparr>]"
    by (simp add: scenario_defs)
  have d: "accountAgeThreshold (config reclaimer2) = Finite (of_int 7)"
    by (simp add: scenario_defs)
  have z: "case getSignaturesForAddress (connection reclaimer2) (PublicKey ''C'') 1 of
             Inl e \<Rightarrow> True
           | Inr [] \<Rightarrow> True
           | Inr (s # rest) \<Rightarrow>
               (case blockTime s of
                  None \<Rightarrow> True
                | Some bt \<Rightarrow>
                    bt \<noteq> 0 \<and>
                    \<bar>now runtime0 (ticks (snd (identifyReclaimableAccounts runtime0 reclaimer2
                         [] world0))) - bt * 1000\<bar> < 2 ^ 53)"
    by (simp add: s) (simp add: scenario_defs evaluate_defs)
  from inactive_tier_follows_activity_rule [OF k g _ _ _ d z, of "[]"] g s
  show ?thesis
    by (simp add: scenario_defs evaluate_defs spec_inactive_def at_least_def)
qed

text \<open>
  C2 as stated fails on four inputs.
  Under \<open>minRentThreshold = 0\<close> the account \<open>Z\<close> exists with a non-empty payload and
  a balance (0) that meets the threshold, and its lookup returns no signatures: the
  claim makes it inactive, the code tags it closed, because rule A comes first.
  Under the default configuration the lookup of \<open>T\<close> returns the timestamp 0, more
  than 19000 days old: the claim makes it inactive, the code excludes it, because
  \<open>!blockTime\<close> holds of the number 0.
  Under a threshold that is NaN the last transaction of \<open>D\<close> is one day old and
  nothing is at least NaN: the claim makes it active, the code returns it as inactive,
  because \<open>daysSince < NaN\<close> is false.
  Under the threshold 0.1, held as the double next above one tenth, the last
  transaction of \<open>F\<close> is exactly a tenth of a day old, less than the threshold: the
  claim makes it active, the code returns it as inactive, because the quotient rounds
  up to the threshold.
\<close>

theorem inactive_tier_rule_fails:
  "getAccountInfo (connection reclaimer3) (PublicKey ''Z'')
     = Inr (Some \<lparr>AccountInfo.lamports = 0, owner = tokenProgram,
                   executable = False, data = [1]\<rparr>) \<and>
   minRentThreshold (config reclaimer3) \<le> 0 \<and>
   spec_inactive (getSignaturesForAddress (connection reclaimer3) (PublicKey ''Z'') 1)
     (now runtime0 0) (accountAgeThreshold (config reclaimer3)) \<and>
   map reason (fst (identifyReclaimableAccounts runtime0 reclaimer3
          [sponsored ''Z'' 0 1 None] world0)) = [ACCOUNT_CLOSED] \<and>
   getAccountInfo (connection reclaimer2) (PublicKey ''T'')
     = Inr (Some \<lparr>AccountInfo.lamports = 3000000, owner = tokenProgram,
                   executable = False, data = replicate 32 0\<rparr>) \<and>
   minRentThreshold (config reclaimer2) \<le> 3000000 \<and>
   getSignaturesForAddress (connection reclaimer2) (PublicKey ''T'') 1
     = Inr [\<lparr>ConfirmedSignatureInfo.signature = ''s0'', blockTime = Some 0\<rparr>] \<and>
   spec_inactive (getSignaturesForAddress (connection reclaimer2) (PublicKey ''T'') 1)
     (now runtime0 0) (accountAgeThreshold (config reclaimer2)) \<and>
   fst (identifyReclaimableAccounts runtime0 reclaimer2
          [sponsored ''T'' 3000000 32 None] world0) = [] \<and>
   accountAgeThreshold (config reclaimer6) = NaN \<and>
   getSignaturesForAddress (connection reclaimer6) (PublicKey ''D'') 1
     = Inr [\<lparr>ConfirmedSignatureInfo.signature = ''s8'', blockTime = Some 1699913600\<rparr>] \<and>
   \<not> spec_inactive (getSignaturesForAddress (connection reclaimer6) (PublicKey ''D'') 1)
     (now runtime0 0) (accountAgeThreshold (config reclaimer6)) \<and>
   map reason (fst (identifyReclaimableAccounts runtime0 reclaimer6
          [sponsored ''D'' 3000000 32 None] world0)) = [ACCOUNT_INACTIVE] \<and>
   accountAgeThreshold (config reclaimer7) = Finite (3602879701896397 / 36028797018963968) \<and>
   getSignaturesForAddress (connection reclaimer7) (PublicKey ''F'') 1
     = Inr [\<lparr>ConfirmedSignatureInfo.signature = ''s9'', blockTime = Some 1699991360\<rparr>] \<and>
   \<not> spec_inactive (getSignaturesForAddress (connection reclaimer7) (PublicKey ''F'') 1)
     (now runtime0 0) (accountAgeThreshold (config reclaimer7)) \<and>
   map reason (fst (identifyReclaimableAccounts runtime0 reclaimer7
          [sponsored ''F'' 3000000 32 None] world0)) = [ACCOUNT_INACTIVE]"
proof -
  have "fl64 (1 / 10) = Finite (3602879701896397 / 36028797018963968)"
    by code_simp
  then have f: "daysSince 1700000000000 1699991360
      = Finite (3602879701896397 / 36028797018963968)"
    by (simp add: daysSince_def)
  show ?thesis
    by (simp add: scenario_defs evaluate_defs spec_inactive_def at_least_def f)
qed

text \<open>
  C7, as amended. Every record \<open>identifyReclaimableAccounts\<close> returns has an
  estimate of at least \<open>minRentThreshold\<close>; the estimate is positive whenever the
  threshold is.
\<close>

theorem estimate_meets_threshold:
  assumes "r \<in> set (fst (identifyReclaimableAccounts rt this accounts w))"
  shows "minRentThreshold (config this) \<le> estimatedRent r
     \<and> (0 < minRentThreshold (config this) \<longrightarrow> 0 < estimatedRent r)"
proof -
  from assms obtain acct w' where "fst (evaluateAccount rt this acct w') = Some r"
    using evaluateAccounts_member [of r rt this accounts w] by (auto simp add: identify_fst)
  from evaluateAccount_estimate(1,2) [OF this] show ?thesis by simp
qed

theorem estimate_meets_threshold_witness:
  "fst (identifyReclaimableAccounts runtime0 reclaimer2
          [sponsored ''C'' 2500000 32 (Some 1699136000)] world0)
     = [\<lparr>address = ''C'', lamports = 3000000, owner = toBase58 tokenProgram, executable = False,
          dataLength = 32, lastActivity = Some 1699136000,
          reason = ACCOUNT_INACTIVE, estimatedRent = 3000000\<rparr>] \<and>
   minRentThreshold (config reclaimer2) \<le> 3000000 \<and> (0::int) < 3000000"
proof -
  let ?r = "\<lparr>address = ''C'', lamports = 3000000, owner = toBase58 tokenProgram,
          executable = False, dataLength = 32, lastActivity = Some 1699136000,
          reason = ACCOUNT_INACTIVE, estimatedRent = 3000000\<rparr>"
  have e: "fst (identifyReclaimableAccounts runtime0 reclaimer2
          [sponsored ''C'' 2500000 32 (Some 1699136000)] world0) = [?r]"
    by (simp add: scenario_defs evaluate_defs)
  then have m: "?r \<in> set (fst (identifyReclaimableAccounts runtime0 reclaimer2
          [sponsored ''C'' 2500000 32 (Some 1699136000)] world0))"
    by simp
  have p: "0 < minRentThreshold (config reclaimer2)"
    by (simp add: scenario_defs)
  from estimate_meets_threshold [OF m] p e show ?thesis by simp
qed

text \<open>
  C7 as stated fails under \<open>minRentThreshold = 0\<close>: an absent account that discovery
  recorded with balance 0 is returned, tagged closed, with estimate 0.
\<close>

theorem estimate_zero_under_zero_threshold:
  "map estimatedRent (fst (identifyReclaimableAccounts runtime0 reclaimer3
          [\<lparr>address = ''G'', lamports = 0, owner = '''', executable = False,
            dataLength = 0, lastActivity = None\<rparr>] world0)) = [0]"
  by (simp add: scenario_defs evaluate_defs)

text \<open>
  C8, as amended. A second run of \<open>identifyReclaimableAccounts\<close> on the same list,
  started in the world the first run left, returns the list the first run returned,
  provided every account that comes to the recent-activity check gets from it, at the
  clock reading of the second run, the answer it got at the clock reading of the
  first. Nothing is asked of the accounts that rules A and B or the balance threshold
  settle, nor of any other clock reading.
\<close>

theorem evaluate_twice_same_list:
  assumes "\<forall>i < length accounts.
             reachesActivityCheck this
               (fst (fetchAccountInfo rt (connection this) (address (accounts ! i)) w))
             \<longrightarrow> fst (hasRecentActivity rt (connection this) (address (accounts ! i))
                       (accountAgeThreshold (config this))
                       (snd (identifyReclaimableAccounts rt this (take i accounts) w)))
                 = fst (hasRecentActivity rt (connection this) (address (accounts ! i))
                       (accountAgeThreshold (config this))
                       (snd (identifyReclaimableAccounts rt this (take i accounts)
                          (snd (identifyReclaimableAccounts rt this accounts w)))))"
  shows "fst (identifyReclaimableAccounts rt this accounts
            (snd (identifyReclaimableAccounts rt this accounts w)))
       = fst (identifyReclaimableAccounts rt this accounts w)"
proof -
  let ?w2 = "snd (identifyReclaimableAccounts rt this accounts w)"
  let ?d = "accountAgeThreshold (config this)"
  have "fst (evaluateAccounts rt this accounts [] ?w2) = fst (evaluateAccounts rt this accounts [] w)"
  proof (rule evaluateAccounts_same_answers [of accounts this rt w], intro allI impI)
    fix i
    assume i: "i < length accounts"
      and r: "reachesActivityCheck this
               (fst (fetchAccountInfo rt (connection this) (address (accounts ! i)) w))"
    let ?a = "address (accounts ! i)"
    have "fst (hasRecentActivity rt (connection this) ?a ?d
                (snd (evaluateAccounts rt this (take i accounts) [] ?w2)))
        = fst (hasRecentActivity rt (connection this) ?a ?d
                (snd (identifyReclaimableAccounts rt this (take i accounts) ?w2)))"
      by (rule hasRecentActivity_ticks_only(1)) (simp add: identify_ticks)
    also have "\<dots> = fst (hasRecentActivity rt (connection this) ?a ?d
                (snd (identifyReclaimableAccounts rt this (take i accounts) w)))"
      using assms i r by simp
    also have "\<dots> = fst (hasRecentActivity rt (connection this) ?a ?d
                (snd (evaluateAccounts rt this (take i accounts) [] w)))"
      by (rule hasRecentActivity_ticks_only(1)) (simp add: identify_ticks)
    finally show "fst (hasRecentActivity rt (connection this) ?a ?d
                (snd (evaluateAccounts rt this (take i accounts) [] ?w2)))
        = fst (hasRecentActivity rt (connection this) ?a ?d
                (snd (evaluateAccounts rt this (take i accounts) [] w)))" .
  qed
  then show ?thesis by (simp only: identify_fst)
qed

text \<open>
  \<open>B\<close> is closed, \<open>C\<close> has been quiet for ten days and \<open>D\<close> was active a day
  ago: the clock advances between and within the runs, and both return \<open>B\<close> and
  \<open>C\<close>.
\<close>

theorem evaluate_twice_same_list_witness:
  "fst (identifyReclaimableAccounts runtime0 reclaimer2
          [sponsored ''B'' 2000000 0 None, sponsored ''C'' 2500000 32 None,
           sponsored ''D'' 3000000 32 None]
          (snd (identifyReclaimableAccounts runtime0 reclaimer2
             [sponsored ''B'' 2000000 0 None, sponsored ''C'' 2500000 32 None,
              sponsored ''D'' 3000000 32 None] world0)))
   = fst (identifyReclaimableAccounts runtime0 reclaimer2
          [sponsored ''B'' 2000000 0 None, sponsored ''C'' 2500000 32 None,
           sponsored ''D'' 3000000 32 None] world0) \<and>
   map address (fst (identifyReclaimableAccounts runtime0 reclaimer2
          [sponsored ''B'' 2000000 0 None, sponsored ''C'' 2500000 32 None,
           sponsored ''D'' 3000000 32 None] world0)) = [''B'', ''C'']"
proof -
  let ?xs = "[sponsored ''B'' 2000000 0 None, sponsored ''C'' 2500000 32 None,
              sponsored ''D'' 3000000 32 None]"
  let ?d = "accountAgeThreshold (config reclaimer2)"
  have "\<forall>i < length ?xs.
             reachesActivityCheck reclaimer2
               (fst (fetchAccountInfo runtime0 (connection reclaimer2) (address (?xs ! i)) world0))
             \<longrightarrow> fst (hasRecentActivity runtime0 (connection reclaimer2) (address (?xs ! i)) ?d
                       (snd (identifyReclaimableAccounts runtime0 reclaimer2 (take i ?xs) world0)))
                 = fst (hasRecentActivity runtime0 (connection reclaimer2) (address (?xs ! i)) ?d
                       (snd (identifyReclaimableAccounts runtime0 reclaimer2 (take i ?xs)
                          (snd (identifyReclaimableAccounts runtime0 reclaimer2 ?xs world0)))))"
  proof (intro allI impI)
    fix i
    assume "i < length ?xs"
    then consider "i = 0" | "i = 1" | "i = 2"
      by (auto simp add: less_Suc_eq)
    then show "fst (hasRecentActivity runtime0 (connection reclaimer2) (address (?xs ! i)) ?d
                       (snd (identifyReclaimableAccounts runtime0 reclaimer2 (take i ?xs) world0)))
                 = fst (hasRecentActivity runtime0 (connection reclaimer2) (address (?xs ! i)) ?d
                       (snd (identifyReclaimableAccounts runtime0 reclaimer2 (take i ?xs)
                          (snd (identifyReclaimableAccounts runtime0 reclaimer2 ?xs world0)))))"
    proof cases
      case 1
      then show ?thesis by (simp add: scenario_defs evaluate_defs)
    next
      case 2
      then show ?thesis by (simp add: scenario_defs evaluate_defs)
    next
      case 3
      then show ?thesis by (simp add: scenario_defs evaluate_defs)
    qed
  qed
  from evaluate_twice_same_list [OF this]
  show ?thesis by (simp add: scenario_defs evaluate_defs)
qed

text \<open>
  C8 as stated fails when the clock crosses an account's threshold between the runs.
  Under \<open>runtime7\<close> the first run reads the clock 1 ms before \<open>C\<close> has been quiet
  for seven days and returns nothing; the second run, on the same list and the same
  ledger responses, reads it 1 ms later and returns \<open>C\<close>.
\<close>

theorem evaluate_twice_differs_across_threshold:
  "fst (identifyReclaimableAccounts runtime7 reclaimer2
          [sponsored ''C'' 2500000 32 (Some 1699136000)] world0) = [] \<and>
   map address (fst (identifyReclaimableAccounts runtime7 reclaimer2
          [sponsored ''C'' 2500000 32 (Some 1699136000)]
          (snd (identifyReclaimableAccounts runtime7 reclaimer2
             [sponsored ''C'' 2500000 32 (Some 1699136000)] world0)))) = [''C'']"
  by (simp add: scenario_defs evaluate_defs)

text \<open>
  C9. In every record \<open>identifyReclaimableAccounts\<close> returns, \<open>lamports\<close> equals
  \<open>estimatedRent\<close>. The record comes from an input account with the same address;
  when its reason is closed the estimate is the balance that input carries, and
  otherwise it is the balance of the snapshot fetched during the evaluation.
\<close>

theorem lamports_equals_estimate:
  assumes "r \<in> set (fst (identifyReclaimableAccounts rt this accounts w))"
  shows "SponsoredAccount.lamports r = estimatedRent r
     \<and> (\<exists>acct \<in> set accounts. address r = address acct
          \<and> (if reason r = ACCOUNT_CLOSED
              then estimatedRent r = SponsoredAccount.lamports acct
              else \<exists>live. fst (fetchAccountInfo rt (connection this) (address acct) w) = Some live
                     \<and> estimatedRent r = AccountInfo.lamports live))"
proof -
  from assms obtain acct w' where a: "acct \<in> set accounts"
    and e: "fst (evaluateAccount rt this acct w') = Some r"
    using evaluateAccounts_member [of r rt this accounts w] by (auto simp add: identify_fst)
  note p = evaluateAccount_estimate [OF e]
  have "reason r \<noteq> ACCOUNT_CLOSED \<Longrightarrow>
      \<exists>live. fst (fetchAccountInfo rt (connection this) (address acct) w) = Some live
        \<and> estimatedRent r = AccountInfo.lamports live"
    using p(6) fetchAccountInfo_fst [of rt "connection this" "address acct" w w'] by auto
  with p(3,4,5) a show ?thesis by auto
qed

text \<open>
  \<open>C\<close> was discovered with 2500000 lamports and holds 3000000 at evaluation: both
  fields of the record are 3000000.
\<close>

theorem lamports_equals_estimate_witness:
  "fst (identifyReclaimableAccounts runtime0 reclaimer2
          [sponsored ''C'' 2500000 32 (Some 1699136000)] world0)
     = [\<lparr>address = ''C'', lamports = 3000000, owner = toBase58 tokenProgram, executable = False,
          dataLength = 32, lastActivity = Some 1699136000,
          reason = ACCOUNT_INACTIVE, estimatedRent = 3000000\<rparr>] \<and>
   fst (fetchAccountInfo runtime0 (connection reclaimer2) ''C'' world0)
     = Some \<lparr>AccountInfo.lamports = 3000000, owner = tokenProgram,
                   executable = False, data = replicate 32 0\<rparr>"
proof -
  let ?r = "\<lparr>address = ''C'', lamports = 3000000, owner = toBase58 tokenProgram,
          executable = False, dataLength = 32, lastActivity = Some 1699136000,
          reason = ACCOUNT_INACTIVE, estimatedRent = 3000000\<rparr>"
  have e: "fst (identifyReclaimableAccounts runtime0 reclaimer2
          [sponsored ''C'' 2500000 32 (Some 1699136000)] world0) = [?r]"
    by (simp add: scenario_defs evaluate_defs)
  then have m: "?r \<in> set (fst (identifyReclaimableAccounts runtime0 reclaimer2
          [sponsored ''C'' 2500000 32 (Some 1699136000)] world0))"
    by simp
  from lamports_equals_estimate [OF m] e show ?thesis
    by (simp add: scenario_defs fetchAccountInfo_def)
qed

text \<open>
  C10. Two input lists that agree once every \<open>lastActivity\<close> is erased give, in the
  same world and on the same ledger, results that agree once every \<open>lastActivity\<close>
  is erased: the same accounts in the same order, with the same reasons, balances and
  estimates.
\<close>

theorem lastActivity_never_read:
  assumes "map (\<lambda>a. a\<lparr>lastActivity := None\<rparr>) xs = map (\<lambda>a. a\<lparr>lastActivity := None\<rparr>) ys"
  shows "map (\<lambda>r. r\<lparr>lastActivity := None\<rparr>) (fst (identifyReclaimableAccounts rt this xs w))
       = map (\<lambda>r. r\<lparr>lastActivity := None\<rparr>) (fst (identifyReclaimableAccounts rt this ys w))"
  by (simp only: identify_fst evaluateAccounts_lastActivity [OF assms])

theorem lastActivity_never_read_witness:
  "map (\<lambda>r. r\<lparr>lastActivity := None\<rparr>)
     (fst (identifyReclaimableAccounts runtime0 reclaimer2
             [sponsored ''C'' 2500000 32 (Some 1699136000)] world0))
   = map (\<lambda>r. r\<lparr>lastActivity := None\<rparr>)
     (fst (identifyReclaimableAccounts runtime0 reclaimer2
             [sponsored ''C'' 2500000 32 None] world0))"
proof -
  have "map (\<lambda>a. a\<lparr>lastActivity := None\<rparr>) [sponsored ''C'' 2500000 32 (Some 1699136000)]
      = map (\<lambda>a. a\<lparr>lastActivity := None\<rparr>) [sponsored ''C'' 2500000 32 None]"
    by (simp add: sponsored_def)
  from lastActivity_never_read [OF this] show ?thesis .
qed

subsection \<open>Discover\<close>

text \<open>
  C6. When the signature-history query of the fee payer throws,
  \<open>getSponsoredAccounts\<close> returns the empty list; the only effect is the two log
  entries. The function has no other outcome: its result type holds no error.
\<close>

theorem history_failure_returns_empty:
  assumes "getSignaturesForAddress (connection this) (publicKey (feePayer this)) 100 = Inl err"
  shows "getSponsoredAccounts rt this w =
     ([], w\<lparr>logs := logs w @ [(INFO, Fetching_sponsored_accounts),
                               (ERROR, getSponsoredAccounts_failed err)]\<rparr>)"
  using assms by (simp add: getSponsoredAccounts_def logger_info_def logger_error_def)

theorem history_failure_returns_empty_witness:
  "getSignaturesForAddress (connection reclaimer5) (publicKey (feePayer reclaimer5)) 100
     = Inl ''429 Too Many Requests'' \<and>
   fst (getSponsoredAccounts runtime0 reclaimer5 world0) = []"
proof -
  have h: "getSignaturesForAddress (connection reclaimer5) (publicKey (feePayer reclaimer5)) 100
     = Inl ''429 Too Many Requests''"
    by (simp add: scenario_defs)
  from history_failure_returns_empty [OF h, of runtime0 world0] h show ?thesis by simp
qed

text \<open>
  C3. The claim: an account whose snapshot fetch fails is logged and skipped, and the
  pass goes on. The code logs the failure and goes on, but does not skip: it takes the
  failed fetch for an absent account and records the address with balance 0. On
  \<open>ledger4\<close> the lookup of \<open>A\<close> throws, and \<open>A\<close> is in the returned list.
\<close>

theorem failed_fetch_not_skipped:
  "getAccountInfo (connection reclaimer4) (PublicKey ''A'') = Inl ''503 Service Unavailable'' \<and>
   map address (fst (getSponsoredAccounts runtime0 reclaimer4 world0)) = [''A'', ''B''] \<and>
   fst (getSponsoredAccounts runtime0 reclaimer4 world0) =
     [\<lparr>address = ''A'', lamports = 0, owner = '''', executable = False, dataLength = 0,
       lastActivity = Some 1699990000\<rparr>,
      \<lparr>address = ''B'', lamports = 2039280, owner = toBase58 tokenProgram, executable = False,
       dataLength = 165, lastActivity = Some 1699990000\<rparr>] \<and>
   logs (snd (getSponsoredAccounts runtime0 reclaimer4 world0)) =
     [(INFO, Fetching_sponsored_accounts),
      (ERROR, fetchAccountInfo_failed ''A'' ''503 Service Unavailable''),
      (INFO, Found_sponsored_accounts 2)]"
  by (simp add: scenario_defs discover_defs)

end
